theory Spec2Isabelle
  imports Complex_Main
begin

section \<open>The X-ray labelling tool: data model\<close>

text \<open>
  The development embeds \<^verbatim>\<open>src/xray_labeler.py\<close>: the class \<^verbatim>\<open>XRayLabeler\<close> with its
  annotation store, its directory scan and its viewer callbacks.

  Modelling decisions, valid for the whole file:
  \<^item> Python floats are modelled as \<^typ>\<open>real\<close>; binary rounding is not modelled.
  \<^item> The runtime functions \<^verbatim>\<open>float()\<close> (text to number, raising \<^verbatim>\<open>ValueError\<close>) and
    \<^verbatim>\<open>str()\<close> (number to text, as \<^verbatim>\<open>csv.writer\<close> applies it) are parameters
    \<open>flt\<close> and \<open>str\<close> of the functions that call them.
  \<^item> A CSV file is the sequence of rows that \<^verbatim>\<open>csv.reader\<close> yields and
    \<^verbatim>\<open>csv.writer\<close> is given: a list of lists of text fields. The byte encoding of a
    row is the library's and is a function of the row.
  \<^item> A \<^verbatim>\<open>dict\<close> is an association list in insertion order; the keys of a Python
    dictionary are pairwise different, which is the predicate \<open>dict_ok\<close>.
  \<^item> The image decoders (\<^verbatim>\<open>pydicom.dcmread\<close>, \<^verbatim>\<open>cv2.imread\<close>) are one parameter
    \<open>decode\<close>, \<open>None\<close> when both fail. The directory tree under the input directory is
    a value of type \<open>entry list\<close>.
  \<^item> Opening the output file for writing is assumed to succeed.
\<close>

subsection \<open>Exceptions, messages, paths\<close>

datatype error =
    StopIteration
  | ValueError
  | IndexError
  | ZeroDivisionError
  | CouldNotReadImage
  | SystemExit int

text \<open>The exit status of the process when the exception reaches the top level:
  \<^verbatim>\<open>sys.exit(n)\<close> gives \<open>n\<close>, any other uncaught exception gives 1.\<close>

fun exit_status :: "error \<Rightarrow> int" where
  "exit_status (SystemExit n) = n"
| "exit_status _ = 1"

text \<open>A path is its list of components; \<^verbatim>\<open>.name\<close> is the final one.\<close>

type_synonym path = "string list"

definition path_name :: "path \<Rightarrow> string" where
  "path_name p = (if p = [] then [] else last p)"

text \<open>\<^verbatim>\<open>xs[i]\<close>: a position from the front, or, for a negative \<open>i\<close> not below
  \<open>- len(xs)\<close>, from the back; \<^verbatim>\<open>IndexError\<close> otherwise.\<close>

definition py_getitem :: "'a list \<Rightarrow> int \<Rightarrow> error + 'a" where
  "py_getitem xs i =
     (if 0 \<le> i \<and> i < int (length xs) then Inr (xs ! nat i)
      else if i < 0 \<and> - int (length xs) \<le> i then Inr (xs ! nat (int (length xs) + i))
      else Inl IndexError)"

subsection \<open>Annotations and dictionaries\<close>

text \<open>The dictionary \<^verbatim>\<open>{'x': .., 'y': .., 'width': .., 'height': ..}\<close>. The fields carry
  the prefix \<open>ann_\<close> because \<open>x\<close> and \<open>y\<close> would capture the variables of every later
  statement.\<close>

record annotation =
  ann_x :: real
  ann_y :: real
  ann_width :: real
  ann_height :: real

type_synonym 'v dict = "(string \<times> 'v) list"

text \<open>\<^verbatim>\<open>d[k] = v\<close>: an existing key keeps its position, a new key goes to the end.\<close>

primrec dict_setitem :: "string \<Rightarrow> 'v \<Rightarrow> 'v dict \<Rightarrow> 'v dict" where
  "dict_setitem k v [] = [(k, v)]"
| "dict_setitem k v (p # ps) =
     (if fst p = k then (k, v) # ps else p # dict_setitem k v ps)"

text \<open>\<^verbatim>\<open>k in d\<close> and \<^verbatim>\<open>d[k]\<close> read through \<^const>\<open>map_of\<close>.\<close>

definition dict_contains :: "'v dict \<Rightarrow> string \<Rightarrow> bool" where
  "dict_contains d k = (map_of d k \<noteq> None)"

definition dict_ok :: "'v dict \<Rightarrow> bool" where
  "dict_ok d = distinct (map fst d)"

text \<open>\<^verbatim>\<open>{**a, **b}\<close>: a copy of \<open>a\<close>, then every item of \<open>b\<close> stored in order.\<close>

definition dict_unpack2 :: "'v dict \<Rightarrow> 'v dict \<Rightarrow> 'v dict" where
  "dict_unpack2 a b = foldl (\<lambda>d kv. dict_setitem (fst kv) (snd kv) d) a b"

subsection \<open>The world outside the object\<close>

type_synonym csv = "string list list"

datatype message =
    MsgNoFiles path
  | MsgFoundImages nat
  | MsgFoundDicom nat
  | MsgErrorReading path error
  | MsgSaved path

text \<open>The CSV files by path (\<open>None\<close>: the file does not exist) and the lines printed.\<close>

record world =
  fs_csv :: "path \<Rightarrow> csv option"
  stdout :: "message list"

text \<open>A call either raises, or returns a value; the world is there in both cases.\<close>

datatype 'a outcome = Raise error world | Return 'a world

fun outcome_world :: "'a outcome \<Rightarrow> world" where
  "outcome_world (Raise e w) = w"
| "outcome_world (Return a w) = w"

text \<open>The directory tree below the input directory, in the order the traversal lists
  the entries.\<close>

datatype entry = File string | Dir string "entry list"

fun entry_name :: "entry \<Rightarrow> string" where
  "entry_name (File n) = n"
| "entry_name (Dir n sub) = n"

subsection \<open>The labeler object\<close>

type_synonym image = "int list"

record labeler =
  input_dir :: path
  output_file :: path
  dicom_files :: "path list"
  current_index :: int
  annotations :: "annotation dict"
  existing_annotations :: "annotation dict"
  ax_image :: "image option"
  ax_title :: "(string \<times> int \<times> nat) option"
  ax_text :: "error option"
  ax_patches :: "annotation list"

section \<open>The annotation store\<close>

subsection \<open>Loading\<close>

text \<open>The body of the loop over the data rows (lines 30 to 38): a row of at least five
  fields is converted, field by field, and stored under its first field; a shorter row
  is passed over. A failed conversion is the \<^verbatim>\<open>ValueError\<close> of \<^verbatim>\<open>float\<close>.\<close>

definition row_annotation :: "(string \<Rightarrow> real option) \<Rightarrow> string list \<Rightarrow> error + annotation" where
  "row_annotation flt row =
     (case flt (row ! 1) of None \<Rightarrow> Inl ValueError | Some vx \<Rightarrow>
     (case flt (row ! 2) of None \<Rightarrow> Inl ValueError | Some vy \<Rightarrow>
     (case flt (row ! 3) of None \<Rightarrow> Inl ValueError | Some vw \<Rightarrow>
     (case flt (row ! 4) of None \<Rightarrow> Inl ValueError | Some vh \<Rightarrow>
        Inr \<lparr>ann_x = vx, ann_y = vy, ann_width = vw, ann_height = vh\<rparr>))))"

fun load_rows :: "(string \<Rightarrow> real option) \<Rightarrow> csv \<Rightarrow> annotation dict \<Rightarrow> error + annotation dict" where
  "load_rows flt [] d = Inr d"
| "load_rows flt (row # rows) d =
     (if length row \<ge> 5 then
        (case row_annotation flt row of
           Inl e \<Rightarrow> Inl e
         | Inr ann \<Rightarrow> load_rows flt rows (dict_setitem (row ! 0) ann d))
      else load_rows flt rows d)"

text \<open>\<^verbatim>\<open>load_existing_annotations\<close>: nothing happens when the file is missing;
  \<^verbatim>\<open>next(reader)\<close> raises \<^verbatim>\<open>StopIteration\<close> when the file has no row at all.\<close>

definition load_existing_annotations ::
  "(string \<Rightarrow> real option) \<Rightarrow> labeler \<Rightarrow> world \<Rightarrow> labeler outcome" where
  "load_existing_annotations flt s w =
     (case fs_csv w (output_file s) of
        None \<Rightarrow> Return s w
      | Some [] \<Rightarrow> Raise StopIteration w
      | Some (headers # rows) \<Rightarrow>
          (case load_rows flt rows (existing_annotations s) of
             Inl e \<Rightarrow> Raise e w
           | Inr d \<Rightarrow> Return (s\<lparr>existing_annotations := d\<rparr>) w))"

text \<open>The constructor \<^verbatim>\<open>__init__\<close>.\<close>

definition XRayLabeler :: "(string \<Rightarrow> real option) \<Rightarrow> path \<Rightarrow> path \<Rightarrow> world \<Rightarrow> labeler outcome" where
  "XRayLabeler flt idir ofile w =
     load_existing_annotations flt
       \<lparr>input_dir = idir, output_file = ofile, dicom_files = [], current_index = 0,
        annotations = [], existing_annotations = [],
        ax_image = None, ax_title = None, ax_text = None, ax_patches = []\<rparr> w"

subsection \<open>Saving\<close>

definition csv_header :: "string list" where
  "csv_header = [''filename'', ''x'', ''y'', ''width'', ''height'']"

definition csv_row :: "(real \<Rightarrow> string) \<Rightarrow> string \<times> annotation \<Rightarrow> string list" where
  "csv_row str kv =
     [fst kv, str (ann_x (snd kv)), str (ann_y (snd kv)),
      str (ann_width (snd kv)), str (ann_height (snd kv))]"

definition combined_annotations :: "labeler \<Rightarrow> annotation dict" where
  "combined_annotations s = dict_unpack2 (existing_annotations s) (annotations s)"

definition save_annotations :: "(real \<Rightarrow> string) \<Rightarrow> labeler \<Rightarrow> world \<Rightarrow> labeler outcome" where
  "save_annotations str s w =
     Return s
       (w\<lparr>fs_csv := (fs_csv w)(output_file s \<mapsto>
              csv_header # map (csv_row str) (combined_annotations s)),
          stdout := stdout w @ [MsgSaved (output_file s)]\<rparr>)"

section \<open>The image file enumerator\<close>

text \<open>The pattern \<^verbatim>\<open>*.ext\<close> on one name: the name ends with the extension (case
  matters; the star also matches nothing).\<close>

definition match_ext :: "string \<Rightarrow> string \<Rightarrow> bool" where
  "match_ext ext n =
     (length ext \<le> length n \<and> drop (length n - length ext) n = ext)"

text \<open>\<^verbatim>\<open>Path.glob('**/*.ext')\<close>: the matching entries of the directory itself, then
  those of each subdirectory, recursively. Files and directories are matched by name
  alike.\<close>

fun rglob :: "string \<Rightarrow> path \<Rightarrow> entry list \<Rightarrow> path list"
  and rglob_sub :: "string \<Rightarrow> path \<Rightarrow> entry \<Rightarrow> path list" where
  "rglob ext dir es =
     map (\<lambda>e. dir @ [entry_name e]) (filter (\<lambda>e. match_ext ext (entry_name e)) es)
     @ concat (map (rglob_sub ext dir) es)"
| "rglob_sub ext dir (File n) = []"
| "rglob_sub ext dir (Dir n sub) = rglob ext (dir @ [n]) sub"

definition scan_directory :: "entry list \<Rightarrow> labeler \<Rightarrow> world \<Rightarrow> labeler outcome" where
  "scan_directory tree s w =
     (let dcm = rglob ''.dcm'' (input_dir s) tree in
      if dcm = [] then
        (let imgs = rglob ''.jpg'' (input_dir s) tree @ rglob ''.png'' (input_dir s) tree in
         if imgs = [] then
           Raise (SystemExit 1) (w\<lparr>stdout := stdout w @ [MsgNoFiles (input_dir s)]\<rparr>)
         else
           Return (s\<lparr>dicom_files := imgs\<rparr>)
             (w\<lparr>stdout := stdout w @ [MsgFoundImages (length imgs)]\<rparr>))
      else
        Return (s\<lparr>dicom_files := dcm\<rparr>)
          (w\<lparr>stdout := stdout w @ [MsgFoundDicom (length dcm)]\<rparr>))"

section \<open>The viewer\<close>

subsection \<open>Drawing the stored rectangle\<close>

text \<open>\<^verbatim>\<open>draw_annotations\<close>: the patches of the axes are removed, then the rectangle of
  the current file, if it has one, is added.\<close>

definition draw_annotations :: "labeler \<Rightarrow> error + labeler" where
  "draw_annotations s =
     (let s1 = s\<lparr>ax_patches := []\<rparr> in
      case py_getitem (dicom_files s1) (current_index s1) of
        Inl e \<Rightarrow> Inl e
      | Inr p \<Rightarrow>
          (case map_of (annotations s1) (path_name p) of
             None \<Rightarrow> Inr s1
           | Some ann \<Rightarrow> Inr (s1\<lparr>ax_patches := ax_patches s1 @ [ann]\<rparr>)))"

subsection \<open>Rectangle selection\<close>

record mouse_event =
  xdata :: real
  ydata :: real

text \<open>Python's \<^verbatim>\<open>min(a, b)\<close> returns \<open>a\<close> unless \<open>b < a\<close>.\<close>

definition py_min :: "real \<Rightarrow> real \<Rightarrow> real" where
  "py_min a b = (if b < a then b else a)"

definition on_select :: "labeler \<Rightarrow> mouse_event \<Rightarrow> mouse_event \<Rightarrow> error + labeler" where
  "on_select s eclick erelease =
     (let x1 = xdata eclick; y1 = ydata eclick;
          x2 = xdata erelease; y2 = ydata erelease;
          vx = py_min x1 x2;
          vy = py_min y1 y2;
          vwidth = \<bar>x2 - x1\<bar>;
          vheight = \<bar>y2 - y1\<bar>
      in case py_getitem (dicom_files s) (current_index s) of
           Inl e \<Rightarrow> Inl e
         | Inr p \<Rightarrow>
             draw_annotations
               (s\<lparr>annotations :=
                    dict_setitem (path_name p)
                      \<lparr>ann_x = vx, ann_y = vy, ann_width = vwidth, ann_height = vheight\<rparr>
                      (annotations s)\<rparr>))"

subsection \<open>Rendering the current image\<close>

text \<open>\<^verbatim>\<open>image.max()\<close> raises \<^verbatim>\<open>ValueError\<close> on an array without elements.\<close>

definition np_max :: "image \<Rightarrow> error + int" where
  "np_max img = (if img = [] then Inl ValueError else Inr (Max (set img)))"

text \<open>\<^verbatim>\<open>image / m\<close>: the division is written as a partial operation, so that a zero
  divisor is a visible failure of the model.\<close>

definition np_divide :: "image \<Rightarrow> int \<Rightarrow> error + real list" where
  "np_divide img m =
     (if m = 0 then Inl ZeroDivisionError
      else Inr (map (\<lambda>p. real_of_int p / real_of_int m) img))"

text \<open>\<^verbatim>\<open>.astype(np.uint8)\<close>: truncation towards zero, then the low eight bits.\<close>

definition astype_uint8 :: "real list \<Rightarrow> image" where
  "astype_uint8 vs =
     map (\<lambda>v. (if v < 0 then - \<lfloor>- v\<rfloor> else \<lfloor>v\<rfloor>) mod 256) vs"

text \<open>Lines 132 to 134: the image is rescaled when its maximum is positive.\<close>

definition normalize_image :: "image \<Rightarrow> error + image" where
  "normalize_image img =
     (case np_max img of
        Inl e \<Rightarrow> Inl e
      | Inr m \<Rightarrow>
          if m > 0 then
            (case np_divide img m of
               Inl e \<Rightarrow> Inl e
             | Inr q \<Rightarrow> Inr (astype_uint8 (map (\<lambda>v. v * 255) q)))
          else Inr img)"

text \<open>The body of the \<^verbatim>\<open>try\<close> block of \<^verbatim>\<open>load_current_image\<close>. On an exception it
  gives the exception and the object as it is at that point.\<close>

definition try_render ::
  "(path \<Rightarrow> image option) \<Rightarrow> path \<Rightarrow> labeler \<Rightarrow> (error \<times> labeler) + labeler" where
  "try_render decode current_file s =
     (case decode current_file of
        None \<Rightarrow> Inl (CouldNotReadImage, s)
      | Some img0 \<Rightarrow>
          (case normalize_image img0 of
             Inl e \<Rightarrow> Inl (e, s)
           | Inr img \<Rightarrow>
               (let s1 = s\<lparr>ax_image := Some img,
                           ax_title := Some (path_name current_file,
                                             current_index s + 1,
                                             length (dicom_files s))\<rparr>;
                    s2 = (case map_of (existing_annotations s1) (path_name current_file) of
                            None \<Rightarrow> s1
                          | Some ann \<Rightarrow>
                              s1\<lparr>annotations :=
                                   dict_setitem (path_name current_file) ann (annotations s1)\<rparr>)
                in case draw_annotations s2 of
                     Inl e \<Rightarrow> Inl (e, s2\<lparr>ax_patches := []\<rparr>)
                   | Inr s3 \<Rightarrow> Inr s3)))"

definition load_current_image ::
  "(path \<Rightarrow> image option) \<Rightarrow> labeler \<Rightarrow> world \<Rightarrow> labeler outcome" where
  "load_current_image decode s w =
     (if dicom_files s = [] then Return s w
      else
        (let s1 = s\<lparr>ax_image := None, ax_title := None, ax_text := None, ax_patches := []\<rparr> in
         case py_getitem (dicom_files s1) (current_index s1) of
           Inl e \<Rightarrow> Raise e w
         | Inr current_file \<Rightarrow>
             (case try_render decode current_file s1 of
                Inr s2 \<Rightarrow> Return s2 w
              | Inl (e, s2) \<Rightarrow>
                  Return (s2\<lparr>ax_text := Some e\<rparr>)
                    (w\<lparr>stdout := stdout w @ [MsgErrorReading current_file e]\<rparr>))))"

subsection \<open>Navigation\<close>

definition next_image :: "(path \<Rightarrow> image option) \<Rightarrow> labeler \<Rightarrow> world \<Rightarrow> labeler outcome" where
  "next_image decode s w =
     (if current_index s < int (length (dicom_files s)) - 1 then
        load_current_image decode (s\<lparr>current_index := current_index s + 1\<rparr>) w
      else Return s w)"

definition previous_image :: "(path \<Rightarrow> image option) \<Rightarrow> labeler \<Rightarrow> world \<Rightarrow> labeler outcome" where
  "previous_image decode s w =
     (if current_index s > 0 then
        load_current_image decode (s\<lparr>current_index := current_index s - 1\<rparr>) w
      else Return s w)"

section \<open>The session\<close>

text \<open>The callbacks that \<^verbatim>\<open>setup_display\<close> registers, as the events of the display loop.\<close>

datatype event =
    ClickPrevious
  | ClickNext
  | ClickSave
  | Select mouse_event mouse_event

definition handle_event ::
  "(real \<Rightarrow> string) \<Rightarrow> (path \<Rightarrow> image option) \<Rightarrow> event \<Rightarrow> labeler \<Rightarrow> world \<Rightarrow> labeler outcome" where
  "handle_event str decode ev s w =
     (case ev of
        ClickPrevious \<Rightarrow> previous_image decode s w
      | ClickNext \<Rightarrow> next_image decode s w
      | ClickSave \<Rightarrow> save_annotations str s w
      | Select eclick erelease \<Rightarrow>
          (case on_select s eclick erelease of
             Inl e \<Rightarrow> Raise e w
           | Inr s' \<Rightarrow> Return s' w))"

text \<open>\<^verbatim>\<open>plt.show()\<close>: the events are handled one after the other until the window is
  closed; an exception of a callback ends the run of the model.\<close>

fun show_loop ::
  "(real \<Rightarrow> string) \<Rightarrow> (path \<Rightarrow> image option) \<Rightarrow> event list \<Rightarrow> labeler \<Rightarrow> world \<Rightarrow> labeler outcome" where
  "show_loop str decode [] s w = Return s w"
| "show_loop str decode (ev # evs) s w =
     (case handle_event str decode ev s w of
        Raise e w' \<Rightarrow> Raise e w'
      | Return s' w' \<Rightarrow> show_loop str decode evs s' w')"

text \<open>\<^verbatim>\<open>setup_display\<close> creates the widgets and renders the current image.\<close>

definition setup_display :: "(path \<Rightarrow> image option) \<Rightarrow> labeler \<Rightarrow> world \<Rightarrow> labeler outcome" where
  "setup_display decode s w = load_current_image decode s w"

definition start_labeling ::
  "(real \<Rightarrow> string) \<Rightarrow> (path \<Rightarrow> image option) \<Rightarrow> entry list \<Rightarrow> event list \<Rightarrow>
   labeler \<Rightarrow> world \<Rightarrow> labeler outcome" where
  "start_labeling str decode tree evs s w =
     (case scan_directory tree s w of
        Raise e w1 \<Rightarrow> Raise e w1
      | Return s1 w1 \<Rightarrow>
          (case setup_display decode s1 w1 of
             Raise e w2 \<Rightarrow> Raise e w2
           | Return s2 w2 \<Rightarrow> show_loop str decode evs s2 w2))"

definition main ::
  "(string \<Rightarrow> real option) \<Rightarrow> (real \<Rightarrow> string) \<Rightarrow> (path \<Rightarrow> image option) \<Rightarrow> entry list \<Rightarrow>
   event list \<Rightarrow> path \<Rightarrow> path \<Rightarrow> world \<Rightarrow> labeler outcome" where
  "main flt str decode tree evs idir ofile w =
     (case XRayLabeler flt idir ofile w of
        Raise e w1 \<Rightarrow> Raise e w1
      | Return labeler w1 \<Rightarrow> start_labeling str decode tree evs labeler w1)"

section \<open>An instance of the text-to-number parameter\<close>

text \<open>\<^verbatim>\<open>float()\<close> on plain decimal literals: an optional sign, digits, an optional point
  and more digits, with at least one digit. Exponents, \<^verbatim>\<open>inf\<close>, \<^verbatim>\<open>nan\<close>, blanks and
  underscores are outside this fragment and are reported as failures here; the instance
  is used below on literals of the fragment and on text that \<^verbatim>\<open>float()\<close> rejects as
  well.\<close>

definition digit_of :: "char \<Rightarrow> nat option" where
  "digit_of c =
     (let n = (of_char c :: nat) in if 48 \<le> n \<and> n \<le> 57 then Some (n - 48) else None)"

fun digits_value :: "string \<Rightarrow> nat \<Rightarrow> nat option" where
  "digits_value [] acc = Some acc"
| "digits_value (c # cs) acc =
     (case digit_of c of None \<Rightarrow> None | Some d \<Rightarrow> digits_value cs (10 * acc + d))"

definition unsigned_decimal :: "string \<Rightarrow> real option" where
  "unsigned_decimal s =
     (let ip = takeWhile (\<lambda>c. c \<noteq> CHR ''.'') s;
          rest = dropWhile (\<lambda>c. c \<noteq> CHR ''.'') s;
          fp = (if rest = [] then [] else tl rest)
      in if ip = [] \<and> fp = [] then None
         else (case digits_value ip 0 of
                 None \<Rightarrow> None
               | Some a \<Rightarrow>
                   (case digits_value fp 0 of
                      None \<Rightarrow> None
                    | Some b \<Rightarrow> Some (real a + real b / 10 ^ length fp))))"

definition py_float :: "string \<Rightarrow> real option" where
  "py_float s =
     (case s of
        [] \<Rightarrow> None
      | c # cs \<Rightarrow>
          if c = CHR ''-'' then map_option uminus (unsigned_decimal cs)
          else if c = CHR ''+'' then unsigned_decimal cs
          else unsigned_decimal s)"

text \<open>\<^verbatim>\<open>str()\<close> on whole numbers from 0 up to \<^verbatim>\<open>1e16\<close>, as a float prints them:
  the decimal digits, then \<^verbatim>\<open>.0\<close>. It is the instance of the number-to-text parameter
  in the examples, which use such numbers only.\<close>

fun nat_digits :: "nat \<Rightarrow> string" where
  "nat_digits n =
     (if n < 10 then [''0123456789'' ! n]
      else nat_digits (n div 10) @ [''0123456789'' ! (n mod 10)])"

definition str_whole :: "real \<Rightarrow> string" where
  "str_whole v = nat_digits (nat \<lfloor>v\<rfloor>) @ ''.0''"

section \<open>Properties of states, and example inputs\<close>

text \<open>The cursor invariant of the viewer: the current index is a position of the file
  list (which is then not empty).\<close>

definition index_ok :: "labeler \<Rightarrow> bool" where
  "index_ok s = (0 \<le> current_index s \<and> current_index s < int (length (dicom_files s)))"

fun is_select :: "event \<Rightarrow> bool" where
  "is_select (Select eclick erelease) = True"
| "is_select _ = False"

text \<open>The four numbers of an annotation come back from their text: what
  \<^verbatim>\<open>float(str(v)) == v\<close> says of the runtime, for the two parameters.\<close>

definition survives_text ::
  "(string \<Rightarrow> real option) \<Rightarrow> (real \<Rightarrow> string) \<Rightarrow> annotation \<Rightarrow> bool" where
  "survives_text flt str a =
     (flt (str (ann_x a)) = Some (ann_x a) \<and> flt (str (ann_y a)) = Some (ann_y a)
      \<and> flt (str (ann_width a)) = Some (ann_width a)
      \<and> flt (str (ann_height a)) = Some (ann_height a))"

text \<open>A session that has loaded the layer \<open>m\<close> and has drawn nothing: the session
  layer holds only items of \<open>m\<close>, and the output file holds \<open>file\<close>.\<close>

definition session_inv :: "annotation dict \<Rightarrow> path \<Rightarrow> csv \<Rightarrow> labeler \<Rightarrow> world \<Rightarrow> bool" where
  "session_inv m ofile file s w =
     (index_ok s \<and> existing_annotations s = m \<and> output_file s = ofile
      \<and> (\<forall>kv \<in> set (annotations s). map_of m (fst kv) = Some (snd kv))
      \<and> fs_csv w ofile = Some file)"

definition ex_world :: world where
  "ex_world = \<lparr>fs_csv = Map.empty, stdout = []\<rparr>"

definition ex_tree :: "entry list" where
  "ex_tree =
     [File ''a.dcm'', Dir ''sub'' [File ''b.dcm'', File ''c.jpg''],
      File ''notes.txt'', File ''d.png'']"

definition ex_labeler :: labeler where
  "ex_labeler =
     \<lparr>input_dir = [''scans''], output_file = [''labels.csv''],
      dicom_files = [[''scans'', ''a.dcm''], [''scans'', ''sub'', ''b.dcm'']],
      current_index = 0,
      annotations =
        [(''b.dcm'', \<lparr>ann_x = 5, ann_y = 6, ann_width = 7, ann_height = 8\<rparr>)],
      existing_annotations =
        [(''a.dcm'', \<lparr>ann_x = 1, ann_y = 2, ann_width = 3, ann_height = 4\<rparr>),
         (''b.dcm'', \<lparr>ann_x = 10, ann_y = 20, ann_width = 30, ann_height = 40\<rparr>)],
      ax_image = None, ax_title = None, ax_text = None, ax_patches = []\<rparr>"

text \<open>A world whose only CSV file is \<^verbatim>\<open>labels.csv\<close> with the given rows, and the
  object as the constructor builds it before loading.\<close>

definition ex_file_world :: "csv \<Rightarrow> world" where
  "ex_file_world rows = \<lparr>fs_csv = [[''labels.csv''] \<mapsto> rows], stdout = []\<rparr>"

definition ex_fresh :: labeler where
  "ex_fresh =
     \<lparr>input_dir = [''scans''], output_file = [''labels.csv''], dicom_files = [],
      current_index = 0, annotations = [], existing_annotations = [],
      ax_image = None, ax_title = None, ax_text = None, ax_patches = []\<rparr>"

section \<open>Dictionary lemmas\<close>

declare nat_digits.simps [simp del]

lemma map_of_dict_setitem: "map_of (dict_setitem k v d) = (map_of d)(k \<mapsto> v)"
  by (induction d) (auto simp: fun_eq_iff)

lemma keys_dict_setitem:
  "map fst (dict_setitem k v d) = (if k \<in> fst ` set d then map fst d else map fst d @ [k])"
  by (induction d) auto

lemma dict_ok_setitem: "dict_ok d \<Longrightarrow> dict_ok (dict_setitem k v d)"
  by (simp add: dict_ok_def keys_dict_setitem)

lemma dict_setitem_same: "map_of d k = Some v \<Longrightarrow> dict_setitem k v d = d"
  by (induction d) (auto split: if_splits)

lemma dict_setitem_new: "k \<notin> fst ` set d \<Longrightarrow> dict_setitem k v d = d @ [(k, v)]"
  by (induction d) auto

lemma dict_ok_unpack2: "dict_ok a \<Longrightarrow> dict_ok (dict_unpack2 a b)"
  unfolding dict_unpack2_def
  by (induction b arbitrary: a) (simp_all add: dict_ok_setitem)

lemma keys_unpack2: "fst ` set (dict_unpack2 a b) = fst ` set a \<union> fst ` set b"
  unfolding dict_unpack2_def
proof (induction b arbitrary: a)
  case Nil
  then show ?case by simp
next
  case (Cons kv b)
  have "fst ` set (dict_setitem (fst kv) (snd kv) a) = insert (fst kv) (fst ` set a)"
    using keys_dict_setitem [of "fst kv" "snd kv" a]
    by (metis (no_types, lifting) insert_absorb list.set_map set_append list.simps(15) 
        Un_insert_right sup_bot.right_neutral empty_set)
  with Cons.IH [of "dict_setitem (fst kv) (snd kv) a"] show ?case by auto
qed

lemma map_of_unpack2:
  "dict_ok b \<Longrightarrow> map_of (dict_unpack2 a b) = map_of a ++ map_of b"
  unfolding dict_unpack2_def
proof (induction b arbitrary: a)
  case Nil
  then show ?case by simp
next
  case (Cons kv b)
  from Cons.prems have ok: "dict_ok b" and new: "fst kv \<notin> fst ` set b"
    by (auto simp: dict_ok_def)
  have none: "map_of b (fst kv) = None"
    using new by (simp add: map_of_eq_None_iff)
  have "map_of (foldl (\<lambda>d kv. dict_setitem (fst kv) (snd kv) d) a (kv # b))
        = map_of (dict_setitem (fst kv) (snd kv) a) ++ map_of b"
    using Cons.IH [OF ok, of "dict_setitem (fst kv) (snd kv) a"] by simp
  also have "\<dots> = (map_of a)(fst kv \<mapsto> snd kv) ++ map_of b"
    by (simp only: map_of_dict_setitem)
  also have "\<dots> = map_of a ++ map_of (kv # b)"
    using none by (cases kv) (auto simp: fun_eq_iff map_add_def split: option.splits)
  finally show ?case .
qed

lemma unpack2_absorb:
  "\<forall>kv \<in> set b. map_of a (fst kv) = Some (snd kv) \<Longrightarrow> dict_unpack2 a b = a"
  unfolding dict_unpack2_def
  by (induction b) (simp_all add: dict_setitem_same)

lemma combined_rows_origin:
  assumes "dict_ok (annotations s)"
      and "(k, a) \<in> set (combined_annotations s)"
      and "dict_ok (existing_annotations s)"
  shows "map_of (annotations s) k = Some a
         \<or> (map_of (annotations s) k = None \<and> map_of (existing_annotations s) k = Some a)"
proof -
  have "dict_ok (combined_annotations s)"
    using assms(3) by (simp add: combined_annotations_def dict_ok_unpack2)
  then have "map_of (combined_annotations s) k = Some a"
    using assms(2) by (simp add: dict_ok_def)
  then have "(map_of (existing_annotations s) ++ map_of (annotations s)) k = Some a"
    using assms(1) by (simp add: combined_annotations_def map_of_unpack2)
  then show ?thesis
    by (auto simp: map_add_def split: option.splits)
qed

section \<open>Saving writes the merged layers\<close>

text \<open>
  Claim C1. At every save, with both layers being dictionaries, the file written is the
  header followed by one row per file name of the merged map: the first fields of the
  data rows are pairwise different and are the file names of the two layers together. A
  file name of the session layer is written with the session layer's values. A file
  name of the existing layer alone is written with the existing layer's values. Every
  row written is of one of these two kinds, so that an existing value is written only
  for a file name that the session layer does not have.
\<close>

theorem save_writes_merged_layers:
  assumes "dict_ok (existing_annotations s)" and "dict_ok (annotations s)"
  shows "\<exists>rows.
           save_annotations str s w =
             Return s (w\<lparr>fs_csv := (fs_csv w)(output_file s \<mapsto> csv_header # rows),
                         stdout := stdout w @ [MsgSaved (output_file s)]\<rparr>)
         \<and> distinct (map (\<lambda>r. r ! 0) rows)
         \<and> set (map (\<lambda>r. r ! 0) rows)
             = fst ` set (existing_annotations s) \<union> fst ` set (annotations s)
         \<and> (\<forall>k a. map_of (annotations s) k = Some a \<longrightarrow> csv_row str (k, a) \<in> set rows)
         \<and> (\<forall>k a. map_of (annotations s) k = None \<and> map_of (existing_annotations s) k = Some a
                \<longrightarrow> csv_row str (k, a) \<in> set rows)
         \<and> (\<forall>r \<in> set rows. \<exists>k a. r = csv_row str (k, a)
                \<and> (map_of (annotations s) k = Some a
                    \<or> (map_of (annotations s) k = None
                        \<and> map_of (existing_annotations s) k = Some a)))"
proof -
  let ?m = "combined_annotations s"
  let ?rows = "map (csv_row str) ?m"
  have first: "map (\<lambda>r. r ! 0) ?rows = map fst ?m"
    by (simp add: csv_row_def comp_def)
  have ok: "dict_ok ?m"
    using assms(1) by (simp add: combined_annotations_def dict_ok_unpack2)
  have look: "map_of ?m = map_of (existing_annotations s) ++ map_of (annotations s)"
    using assms(2) by (simp add: combined_annotations_def map_of_unpack2)
  have mem: "(k, a) \<in> set ?m" if "map_of ?m k = Some a" for k a
    using that by (rule map_of_SomeD)
  have c1: "save_annotations str s w =
             Return s (w\<lparr>fs_csv := (fs_csv w)(output_file s \<mapsto> csv_header # ?rows),
                         stdout := stdout w @ [MsgSaved (output_file s)]\<rparr>)"
    by (simp add: save_annotations_def)
  have c2: "distinct (map (\<lambda>r. r ! 0) ?rows)"
    using ok by (simp only: first dict_ok_def)
  have c3: "set (map (\<lambda>r. r ! 0) ?rows)
             = fst ` set (existing_annotations s) \<union> fst ` set (annotations s)"
  proof -
    have "set (map (\<lambda>r. r ! 0) ?rows) = fst ` set ?m"
      by (simp only: first set_map)
    then show ?thesis
      by (simp only: combined_annotations_def keys_unpack2)
  qed
  have c4: "\<forall>k a. map_of (annotations s) k = Some a \<longrightarrow> csv_row str (k, a) \<in> set ?rows"
  proof (intro allI impI)
    fix k a assume "map_of (annotations s) k = Some a"
    then have "map_of ?m k = Some a" by (simp add: look)
    then show "csv_row str (k, a) \<in> set ?rows" using mem by auto
  qed
  have c5: "\<forall>k a. map_of (annotations s) k = None \<and> map_of (existing_annotations s) k = Some a
                \<longrightarrow> csv_row str (k, a) \<in> set ?rows"
  proof (intro allI impI)
    fix k a
    assume "map_of (annotations s) k = None \<and> map_of (existing_annotations s) k = Some a"
    then have "map_of ?m k = Some a" by (simp add: look map_add_def)
    then show "csv_row str (k, a) \<in> set ?rows" using mem by auto
  qed
  have c6: "\<forall>r \<in> set ?rows. \<exists>k a. r = csv_row str (k, a)
                \<and> (map_of (annotations s) k = Some a
                    \<or> (map_of (annotations s) k = None
                        \<and> map_of (existing_annotations s) k = Some a))"
  proof
    fix r assume "r \<in> set ?rows"
    then obtain k a where ka: "(k, a) \<in> set ?m" and r: "r = csv_row str (k, a)"
      by auto
    from combined_rows_origin [OF assms(2) ka assms(1)] r
    show "\<exists>k a. r = csv_row str (k, a)
                \<and> (map_of (annotations s) k = Some a
                    \<or> (map_of (annotations s) k = None
                        \<and> map_of (existing_annotations s) k = Some a))"
      by blast
  qed
  from c1 c2 c3 c4 c5 c6 show ?thesis by blast
qed

text \<open>The theorem at the example object: the session layer holds \<^verbatim>\<open>b.dcm\<close>, the
  existing layer \<^verbatim>\<open>a.dcm\<close> and \<^verbatim>\<open>b.dcm\<close>; two rows are written, and the row of
  \<^verbatim>\<open>b.dcm\<close> carries the session values.\<close>

theorem save_writes_merged_layers_witness:
  "dict_ok (existing_annotations ex_labeler) \<and> dict_ok (annotations ex_labeler)
   \<and> (\<exists>rows. fs_csv (outcome_world (save_annotations str_whole ex_labeler ex_world))
                 [''labels.csv''] = Some (csv_header # rows)
        \<and> [''b.dcm'', ''5.0'', ''6.0'', ''7.0'', ''8.0''] \<in> set rows
        \<and> [''a.dcm'', ''1.0'', ''2.0'', ''3.0'', ''4.0''] \<in> set rows
        \<and> length rows = 2)"
proof -
  have h1: "dict_ok (existing_annotations ex_labeler)"
    by (simp add: ex_labeler_def dict_ok_def)
  have h2: "dict_ok (annotations ex_labeler)"
    by (simp add: ex_labeler_def dict_ok_def)
  from save_writes_merged_layers [OF h1 h2, of str_whole ex_world]
  obtain rows where
    r1: "save_annotations str_whole ex_labeler ex_world =
           Return ex_labeler
             (ex_world\<lparr>fs_csv := (fs_csv ex_world)(output_file ex_labeler \<mapsto> csv_header # rows),
                       stdout := stdout ex_world @ [MsgSaved (output_file ex_labeler)]\<rparr>)"
    and r2: "distinct (map (\<lambda>r. r ! 0) rows)"
    and r3: "set (map (\<lambda>r. r ! 0) rows)
             = fst ` set (existing_annotations ex_labeler) \<union> fst ` set (annotations ex_labeler)"
    and r4: "\<forall>k a. map_of (annotations ex_labeler) k = Some a \<longrightarrow> csv_row str_whole (k, a) \<in> set rows"
    and r5: "\<forall>k a. map_of (annotations ex_labeler) k = None
                  \<and> map_of (existing_annotations ex_labeler) k = Some a
                \<longrightarrow> csv_row str_whole (k, a) \<in> set rows"
    by blast
  have a: "fs_csv (outcome_world (save_annotations str_whole ex_labeler ex_world))
             [''labels.csv''] = Some (csv_header # rows)"
  proof -
    have "output_file ex_labeler = [''labels.csv'']"
      by (simp add: ex_labeler_def)
    then show ?thesis
      by (simp add: r1)
  qed
  have "csv_row str_whole (''b.dcm'', \<lparr>ann_x = 5, ann_y = 6, ann_width = 7, ann_height = 8\<rparr>) \<in> set rows"
    using r4 by (simp add: ex_labeler_def)
  then have b: "[''b.dcm'', ''5.0'', ''6.0'', ''7.0'', ''8.0''] \<in> set rows"
    by (simp add: csv_row_def str_whole_def nat_digits.simps)
  have "csv_row str_whole (''a.dcm'', \<lparr>ann_x = 1, ann_y = 2, ann_width = 3, ann_height = 4\<rparr>) \<in> set rows"
    using r5 by (simp add: ex_labeler_def)
  then have c: "[''a.dcm'', ''1.0'', ''2.0'', ''3.0'', ''4.0''] \<in> set rows"
    by (simp add: csv_row_def str_whole_def nat_digits.simps)
  have "set (map (\<lambda>r. r ! 0) rows) = {''a.dcm'', ''b.dcm''}"
    unfolding r3 by (auto simp add: ex_labeler_def)
  then have "card (set (map (\<lambda>r. r ! 0) rows)) = 2"
    by simp
  then have d: "length rows = 2"
    using r2 distinct_card [of "map (\<lambda>r. r ! 0) rows"] by simp
  from h1 h2 a b c d show ?thesis by blast
qed

section \<open>Saving twice\<close>

text \<open>
  Claim C8. In every state, a save returns the object unchanged and leaves the output
  file existing, holding the header row followed by one row per item of the merged
  dictionary, in its order; every other file is as before. A second save right after
  the first returns the object unchanged again and leaves every file, the output file
  among them, with the same contents as after the first. Each save prints its
  confirmation line. The same holds when the two saves are two clicks handled by the
  display loop.
\<close>

theorem save_twice_identical_file:
  "\<exists>w1 w2. save_annotations str s w = Return s w1
         \<and> save_annotations str s w1 = Return s w2
         \<and> fs_csv w1 (output_file s)
             = Some ([''filename'', ''x'', ''y'', ''width'', ''height'']
                     # map (\<lambda>kv. [fst kv, str (ann_x (snd kv)), str (ann_y (snd kv)),
                                    str (ann_width (snd kv)), str (ann_height (snd kv))])
                         (dict_unpack2 (existing_annotations s) (annotations s)))
         \<and> fs_csv w2 (output_file s) = fs_csv w1 (output_file s)
         \<and> fs_csv w1 = (fs_csv w)(output_file s := fs_csv w1 (output_file s))
         \<and> fs_csv w2 = fs_csv w1
         \<and> stdout w1 = stdout w @ [MsgSaved (output_file s)]
         \<and> stdout w2 = stdout w @ [MsgSaved (output_file s), MsgSaved (output_file s)]
         \<and> show_loop str decode [ClickSave] s w = Return s w1
         \<and> show_loop str decode [ClickSave, ClickSave] s w = Return s w2"
proof -
  have row: "csv_row str = (\<lambda>kv. [fst kv, str (ann_x (snd kv)), str (ann_y (snd kv)),
                                    str (ann_width (snd kv)), str (ann_height (snd kv))])"
    by (simp add: fun_eq_iff csv_row_def)
  show ?thesis
    by (simp add: save_annotations_def handle_event_def csv_header_def row
          combined_annotations_def)
qed

text \<open>The two saves at the example object: both leave the header and the same two
  data rows.\<close>

theorem save_twice_identical_file_witness:
  "(\<exists>w1 w2. save_annotations str_whole ex_labeler ex_world = Return ex_labeler w1
       \<and> save_annotations str_whole ex_labeler w1 = Return ex_labeler w2
       \<and> fs_csv w1 [''labels.csv'']
           = Some [[''filename'', ''x'', ''y'', ''width'', ''height''],
                   [''a.dcm'', ''1.0'', ''2.0'', ''3.0'', ''4.0''],
                   [''b.dcm'', ''5.0'', ''6.0'', ''7.0'', ''8.0'']]
       \<and> fs_csv w2 [''labels.csv'']
           = Some [[''filename'', ''x'', ''y'', ''width'', ''height''],
                   [''a.dcm'', ''1.0'', ''2.0'', ''3.0'', ''4.0''],
                   [''b.dcm'', ''5.0'', ''6.0'', ''7.0'', ''8.0'']])"
proof -
  have o: "output_file ex_labeler = [''labels.csv'']"
    by (simp add: ex_labeler_def)
  have m: "dict_unpack2 (existing_annotations ex_labeler) (annotations ex_labeler) =
              [(''a.dcm'', \<lparr>ann_x = 1, ann_y = 2, ann_width = 3, ann_height = 4\<rparr>),
               (''b.dcm'', \<lparr>ann_x = 5, ann_y = 6, ann_width = 7, ann_height = 8\<rparr>)]"
    by (simp add: dict_unpack2_def ex_labeler_def)
  from save_twice_identical_file [where str = str_whole and s = ex_labeler and w = ex_world]
  obtain w1 w2 where
    a: "save_annotations str_whole ex_labeler ex_world = Return ex_labeler w1"
    and b: "save_annotations str_whole ex_labeler w1 = Return ex_labeler w2"
    and c: "fs_csv w1 (output_file ex_labeler)
             = Some ([''filename'', ''x'', ''y'', ''width'', ''height'']
                     # map (\<lambda>kv. [fst kv, str_whole (ann_x (snd kv)), str_whole (ann_y (snd kv)),
                                    str_whole (ann_width (snd kv)), str_whole (ann_height (snd kv))])
                         (dict_unpack2 (existing_annotations ex_labeler) (annotations ex_labeler)))"
    and d: "fs_csv w2 (output_file ex_labeler) = fs_csv w1 (output_file ex_labeler)"
    by blast
  from c have c': "fs_csv w1 [''labels.csv'']
           = Some [[''filename'', ''x'', ''y'', ''width'', ''height''],
                   [''a.dcm'', ''1.0'', ''2.0'', ''3.0'', ''4.0''],
                   [''b.dcm'', ''5.0'', ''6.0'', ''7.0'', ''8.0'']]"
    unfolding o m by (simp add: str_whole_def nat_digits.simps)
  from d c' have d': "fs_csv w2 [''labels.csv'']
           = Some [[''filename'', ''x'', ''y'', ''width'', ''height''],
                   [''a.dcm'', ''1.0'', ''2.0'', ''3.0'', ''4.0''],
                   [''b.dcm'', ''5.0'', ''6.0'', ''7.0'', ''8.0'']]"
    unfolding o by simp
  from a b c' d' show ?thesis by blast
qed

section \<open>An output file without rows\<close>

text \<open>
  Claim C10. When the output file exists and has no row at all, the constructor raises
  \<^verbatim>\<open>StopIteration\<close> at the read of the header row; nothing catches it, so the program
  ends there with a non-zero status. When the file is missing, the constructor returns
  with an empty existing layer.
\<close>

theorem empty_output_file_fails_startup:
  "(fs_csv w ofile = Some [] \<longrightarrow>
      XRayLabeler flt idir ofile w = Raise StopIteration w
      \<and> main flt str decode tree evs idir ofile w = Raise StopIteration w
      \<and> exit_status StopIteration \<noteq> 0)
   \<and> (fs_csv w ofile = None \<longrightarrow>
      (\<exists>s. XRayLabeler flt idir ofile w = Return s w \<and> existing_annotations s = []))"
  by (simp add: XRayLabeler_def load_existing_annotations_def main_def)

theorem empty_output_file_fails_startup_witness:
  "fs_csv (ex_world\<lparr>fs_csv := [[''labels.csv''] \<mapsto> []]\<rparr>) [''labels.csv''] = Some []
   \<and> main py_float str_whole (\<lambda>p. None) ex_tree [] [''scans''] [''labels.csv'']
        (ex_world\<lparr>fs_csv := [[''labels.csv''] \<mapsto> []]\<rparr>)
      = Raise StopIteration (ex_world\<lparr>fs_csv := [[''labels.csv''] \<mapsto> []]\<rparr>)
   \<and> fs_csv ex_world [''labels.csv''] = None
   \<and> (\<exists>s. XRayLabeler py_float [''scans''] [''labels.csv''] ex_world = Return s ex_world
          \<and> existing_annotations s = [])"
  using empty_output_file_fails_startup
          [of "ex_world\<lparr>fs_csv := [[''labels.csv''] \<mapsto> []]\<rparr>" "[''labels.csv'']"
              py_float "[''scans'']" str_whole "\<lambda>p. None" ex_tree "[]"]
        empty_output_file_fails_startup
          [of ex_world "[''labels.csv'']" py_float "[''scans'']" str_whole "\<lambda>p. None" ex_tree "[]"]
  by (simp add: ex_world_def)

section \<open>Rectangle selection\<close>

lemma py_getitem_index_ok:
  "index_ok s \<Longrightarrow>
   py_getitem (dicom_files s) (current_index s) = Inr (dicom_files s ! nat (current_index s))"
  by (simp add: index_ok_def py_getitem_def)

lemma draw_annotations_found:
  assumes "py_getitem (dicom_files s) (current_index s) = Inr p"
  shows "draw_annotations s =
           Inr (s\<lparr>ax_patches := (case map_of (annotations s) (path_name p) of
                                   None \<Rightarrow> [] | Some ann \<Rightarrow> [ann])\<rparr>)"
  using assms by (simp add: draw_annotations_def split: option.splits)

lemma py_min_min: "py_min a b = min a b"
  by (simp add: py_min_def min_def)

lemma on_select_found:
  assumes "py_getitem (dicom_files s) (current_index s) = Inr p"
  shows "on_select s e1 e2 =
           Inr (s\<lparr>annotations :=
                    dict_setitem (path_name p)
                      \<lparr>ann_x = min (xdata e1) (xdata e2), ann_y = min (ydata e1) (ydata e2),
                       ann_width = \<bar>xdata e2 - xdata e1\<bar>, ann_height = \<bar>ydata e2 - ydata e1\<bar>\<rparr>
                      (annotations s),
                  ax_patches :=
                    [\<lparr>ann_x = min (xdata e1) (xdata e2), ann_y = min (ydata e1) (ydata e2),
                      ann_width = \<bar>xdata e2 - xdata e1\<bar>, ann_height = \<bar>ydata e2 - ydata e1\<bar>\<rparr>]\<rparr>)"
proof -
  let ?a = "\<lparr>ann_x = min (xdata e1) (xdata e2), ann_y = min (ydata e1) (ydata e2),
             ann_width = \<bar>xdata e2 - xdata e1\<bar>, ann_height = \<bar>ydata e2 - ydata e1\<bar>\<rparr>"
  let ?s1 = "s\<lparr>annotations := dict_setitem (path_name p) ?a (annotations s)\<rparr>"
  have g: "py_getitem (dicom_files ?s1) (current_index ?s1) = Inr p"
    using assms by simp
  have m: "map_of (annotations ?s1) (path_name p) = Some ?a"
    by (simp add: map_of_dict_setitem)
  have "on_select s e1 e2 = draw_annotations ?s1"
    using assms by (simp add: on_select_def py_min_min Let_def)
  also have "\<dots> = Inr (?s1\<lparr>ax_patches := [?a]\<rparr>)"
    using draw_annotations_found [OF g] m by simp
  finally show ?thesis by simp
qed

text \<open>
  Claim C2. For every two corner points, when the current index names a file of the
  list, the selection handler returns an object whose session layer holds, for the name
  of that file, the annotation with \<open>x = min x1 x2\<close>, \<open>y = min y1 y2\<close>,
  \<open>width = |x2 - x1|\<close> and \<open>height = |y2 - y1|\<close>. The handler returns the very same
  object when the two corners are swapped, and when the other two corners of the same
  rectangle are given, in either order.
\<close>

theorem on_select_stores_normalised_rectangle:
  assumes "py_getitem (dicom_files s) (current_index s) = Inr p"
  shows "\<exists>s'. on_select s \<lparr>xdata = x1, ydata = y1\<rparr> \<lparr>xdata = x2, ydata = y2\<rparr> = Inr s'
           \<and> map_of (annotations s') (path_name p)
               = Some \<lparr>ann_x = min x1 x2, ann_y = min y1 y2,
                       ann_width = \<bar>x2 - x1\<bar>, ann_height = \<bar>y2 - y1\<bar>\<rparr>
           \<and> on_select s \<lparr>xdata = x2, ydata = y2\<rparr> \<lparr>xdata = x1, ydata = y1\<rparr> = Inr s'
           \<and> on_select s \<lparr>xdata = x1, ydata = y2\<rparr> \<lparr>xdata = x2, ydata = y1\<rparr> = Inr s'
           \<and> on_select s \<lparr>xdata = x2, ydata = y1\<rparr> \<lparr>xdata = x1, ydata = y2\<rparr> = Inr s'"
proof -
  have sym: "min x2 x1 = min x1 x2" "min y2 y1 = min y1 y2"
            "\<bar>x1 - x2\<bar> = \<bar>x2 - x1\<bar>" "\<bar>y1 - y2\<bar> = \<bar>y2 - y1\<bar>"
    by (simp_all add: min.commute abs_minus_commute)
  show ?thesis
    by (simp add: on_select_found [OF assms] map_of_dict_setitem sym)
qed

theorem on_select_stores_normalised_rectangle_witness:
  "py_getitem (dicom_files ex_labeler) (current_index ex_labeler) = Inr [''scans'', ''a.dcm'']
   \<and> (\<exists>s'. on_select ex_labeler \<lparr>xdata = 30, ydata = 5\<rparr> \<lparr>xdata = 10, ydata = 45\<rparr> = Inr s'
        \<and> map_of (annotations s') ''a.dcm''
             = Some \<lparr>ann_x = 10, ann_y = 5, ann_width = 20, ann_height = 40\<rparr>
        \<and> on_select ex_labeler \<lparr>xdata = 10, ydata = 45\<rparr> \<lparr>xdata = 30, ydata = 5\<rparr> = Inr s')"
proof -
  have h: "py_getitem (dicom_files ex_labeler) (current_index ex_labeler) = Inr [''scans'', ''a.dcm'']"
    by (simp add: ex_labeler_def py_getitem_def)
  from on_select_stores_normalised_rectangle [OF h, of 30 5 10 45]
  obtain s' where
    a: "on_select ex_labeler \<lparr>xdata = 30, ydata = 5\<rparr> \<lparr>xdata = 10, ydata = 45\<rparr> = Inr s'"
    and b: "map_of (annotations s') (path_name [''scans'', ''a.dcm''])
               = Some \<lparr>ann_x = min 30 10, ann_y = min 5 45,
                       ann_width = \<bar>10 - 30\<bar>, ann_height = \<bar>45 - 5\<bar>\<rparr>"
    and c: "on_select ex_labeler \<lparr>xdata = 10, ydata = 45\<rparr> \<lparr>xdata = 30, ydata = 5\<rparr> = Inr s'"
    by blast
  from b have b': "map_of (annotations s') ''a.dcm''
             = Some \<lparr>ann_x = 10, ann_y = 5, ann_width = 20, ann_height = 40\<rparr>"
    by (simp add: path_name_def)
  from h a b' c show ?thesis by blast
qed

section \<open>Rendering and navigation\<close>

lemma normalize_image_cases:
  "normalize_image img =
     (if img = [] then Inl ValueError
      else if Max (set img) > 0
        then Inr (astype_uint8
                    (map (\<lambda>v. v * 255)
                       (map (\<lambda>p. real_of_int p / real_of_int (Max (set img))) img)))
        else Inr img)"
  by (simp add: normalize_image_def np_max_def np_divide_def)

lemma load_current_image_frame:
  assumes "index_ok s"
  shows "case load_current_image decode s w of
           Raise e w' \<Rightarrow> False
         | Return s' w' \<Rightarrow>
             dicom_files s' = dicom_files s \<and> current_index s' = current_index s
             \<and> existing_annotations s' = existing_annotations s
             \<and> output_file s' = output_file s \<and> input_dir s' = input_dir s
             \<and> fs_csv w' = fs_csv w
             \<and> (annotations s' = annotations s
                 \<or> (\<exists>k a. map_of (existing_annotations s) k = Some a
                          \<and> annotations s' = dict_setitem k a (annotations s)))"
proof -
  let ?p = "dicom_files s ! nat (current_index s)"
  have g: "py_getitem (dicom_files s) (current_index s) = Inr ?p"
    using assms by (rule py_getitem_index_ok)
  have ne: "dicom_files s \<noteq> []"
    using assms by (auto simp: index_ok_def)
  show ?thesis
    using g ne
    by (auto simp: load_current_image_def try_render_def draw_annotations_def Let_def
             split: option.splits sum.splits prod.splits)
qed


lemma handle_event_frame:
  assumes "index_ok s"
  shows "case handle_event str decode ev s w of
           Raise e w' \<Rightarrow> False
         | Return s' w' \<Rightarrow>
             index_ok s' \<and> dicom_files s' = dicom_files s
             \<and> existing_annotations s' = existing_annotations s
             \<and> output_file s' = output_file s \<and> input_dir s' = input_dir s
             \<and> (is_select ev \<or> annotations s' = annotations s
                 \<or> (\<exists>k a. map_of (existing_annotations s) k = Some a
                          \<and> annotations s' = dict_setitem k a (annotations s)))
             \<and> (fs_csv w' = fs_csv w
                 \<or> (ev = ClickSave \<and> s' = s
                     \<and> fs_csv w' = (fs_csv w)(output_file s \<mapsto>
                           csv_header # map (csv_row str) (combined_annotations s))))"
proof (cases ev)
  case ClickPrevious
  show ?thesis
  proof (cases "current_index s > 0")
    case True
    let ?t = "s\<lparr>current_index := current_index s - 1\<rparr>"
    have "index_ok ?t" using assms True by (simp add: index_ok_def)
    from load_current_image_frame [OF this, where decode = decode and w = w]
    show ?thesis using ClickPrevious True assms
      by (auto simp: handle_event_def previous_image_def index_ok_def split: outcome.splits)
  next
    case False
    then show ?thesis using ClickPrevious assms
      by (simp add: handle_event_def previous_image_def)
  qed
next
  case ClickNext
  show ?thesis
  proof (cases "current_index s < int (length (dicom_files s)) - 1")
    case True
    let ?t = "s\<lparr>current_index := current_index s + 1\<rparr>"
    have "index_ok ?t" using assms True by (simp add: index_ok_def)
    from load_current_image_frame [OF this, where decode = decode and w = w]
    show ?thesis using ClickNext True assms
      by (auto simp: handle_event_def next_image_def index_ok_def split: outcome.splits)
  next
    case False
    then show ?thesis using ClickNext assms
      by (simp add: handle_event_def next_image_def)
  qed
next
  case ClickSave
  then show ?thesis using assms
    by (simp add: handle_event_def save_annotations_def)
next
  case (Select e1 e2)
  have g: "py_getitem (dicom_files s) (current_index s) = Inr (dicom_files s ! nat (current_index s))"
    using assms by (rule py_getitem_index_ok)
  show ?thesis using Select assms
    by (simp add: handle_event_def on_select_found [OF g] index_ok_def)
qed

text \<open>
  Claim C7. Whenever the current index is a position of the file list (so the list is
  not empty): Next at the last index and Previous at index 0 return the object and the
  world unchanged; every event of the display loop (Previous, Next, Save, a rectangle
  selection) returns without an exception, with the same file list and with an index
  that is again a position of the list; and so do rendering the current image and
  drawing its rectangle.
\<close>

theorem navigation_clamped_index_in_range:
  assumes "index_ok s"
  shows "(current_index s = int (length (dicom_files s)) - 1
            \<longrightarrow> next_image decode s w = Return s w)
       \<and> (current_index s = 0 \<longrightarrow> previous_image decode s w = Return s w)
       \<and> (\<forall>ev. \<exists>s' w'. handle_event str decode ev s w = Return s' w'
                \<and> dicom_files s' = dicom_files s \<and> index_ok s')
       \<and> (\<exists>s' w'. load_current_image decode s w = Return s' w'
                \<and> dicom_files s' = dicom_files s \<and> index_ok s')
       \<and> (\<exists>s'. draw_annotations s = Inr s'
                \<and> dicom_files s' = dicom_files s \<and> index_ok s')"
proof -
  have a: "current_index s = int (length (dicom_files s)) - 1
            \<longrightarrow> next_image decode s w = Return s w"
    by (simp add: next_image_def)
  have b: "current_index s = 0 \<longrightarrow> previous_image decode s w = Return s w"
    by (simp add: previous_image_def)
  have c: "\<forall>ev. \<exists>s' w'. handle_event str decode ev s w = Return s' w'
                \<and> dicom_files s' = dicom_files s \<and> index_ok s'"
  proof
    fix ev
    from handle_event_frame [OF assms, where str = str and decode = decode and ev = ev and w = w]
    show "\<exists>s' w'. handle_event str decode ev s w = Return s' w'
                \<and> dicom_files s' = dicom_files s \<and> index_ok s'"
      by (cases "handle_event str decode ev s w") simp_all
  qed
  have d: "\<exists>s' w'. load_current_image decode s w = Return s' w'
                \<and> dicom_files s' = dicom_files s \<and> index_ok s'"
    using load_current_image_frame [OF assms, where decode = decode and w = w] assms
    by (cases "load_current_image decode s w") (simp_all add: index_ok_def)
  have e: "\<exists>s'. draw_annotations s = Inr s'
                \<and> dicom_files s' = dicom_files s \<and> index_ok s'"
    using draw_annotations_found [OF py_getitem_index_ok [OF assms]] assms
    by (simp add: index_ok_def)
  from a b c d e show ?thesis by blast
qed

theorem navigation_clamped_index_in_range_witness:
  "index_ok ex_labeler
   \<and> previous_image (\<lambda>p. None) ex_labeler ex_world = Return ex_labeler ex_world
   \<and> index_ok (ex_labeler\<lparr>current_index := 1\<rparr>)
   \<and> current_index (ex_labeler\<lparr>current_index := 1\<rparr>)
       = int (length (dicom_files (ex_labeler\<lparr>current_index := 1\<rparr>))) - 1
   \<and> next_image (\<lambda>p. None) (ex_labeler\<lparr>current_index := 1\<rparr>) ex_world
       = Return (ex_labeler\<lparr>current_index := 1\<rparr>) ex_world"
proof -
  have h0: "index_ok ex_labeler"
    by (simp add: index_ok_def ex_labeler_def)
  have h1: "index_ok (ex_labeler\<lparr>current_index := 1\<rparr>)"
    by (simp add: index_ok_def ex_labeler_def)
  have i0: "current_index ex_labeler = 0"
    by (simp add: ex_labeler_def)
  have i1: "current_index (ex_labeler\<lparr>current_index := 1\<rparr>)
       = int (length (dicom_files (ex_labeler\<lparr>current_index := 1\<rparr>))) - 1"
    by (simp add: ex_labeler_def)
  from navigation_clamped_index_in_range [OF h0, where decode = "\<lambda>p. None" and w = ex_world and str = str_whole] i0
  have p: "previous_image (\<lambda>p. None) ex_labeler ex_world = Return ex_labeler ex_world"
    by blast
  from navigation_clamped_index_in_range [OF h1, where decode = "\<lambda>p. None" and w = ex_world and str = str_whole] i1
  have n: "next_image (\<lambda>p. None) (ex_labeler\<lparr>current_index := 1\<rparr>) ex_world
       = Return (ex_labeler\<lparr>current_index := 1\<rparr>) ex_world"
    by blast
  from h0 p h1 i1 n show ?thesis by blast
qed

text \<open>
  Claim C9. For a decoded image whose maximum pixel value is 0 the normalisation step
  returns the image as it is; in general the step rescales exactly when the maximum is
  positive, and it never fails with a division by zero. Rendering such an image at a
  valid index returns with the unscaled image on the axes, no error text and nothing
  printed.
\<close>

theorem zero_maximum_image_not_rescaled:
  "(np_max img = Inr 0 \<longrightarrow> normalize_image img = Inr img)
   \<and> (\<forall>m. np_max img = Inr m \<longrightarrow>
         normalize_image img =
           (if 0 < m
            then Inr (astype_uint8 (map (\<lambda>v. v * 255)
                        (map (\<lambda>p. real_of_int p / real_of_int m) img)))
            else Inr img))
   \<and> normalize_image img \<noteq> Inl ZeroDivisionError
   \<and> (py_getitem (dicom_files s) (current_index s) = Inr p \<and> decode p = Some img
        \<and> np_max img = Inr 0
      \<longrightarrow> (\<exists>s'. load_current_image decode s w = Return s' w
                \<and> ax_image s' = Some img \<and> ax_text s' = None))"
proof -
  have a: "np_max img = Inr 0 \<longrightarrow> normalize_image img = Inr img"
    by (simp add: normalize_image_def)
  have b: "\<forall>m. np_max img = Inr m \<longrightarrow>
         normalize_image img =
           (if 0 < m
            then Inr (astype_uint8 (map (\<lambda>v. v * 255)
                        (map (\<lambda>p. real_of_int p / real_of_int m) img)))
            else Inr img)"
    by (simp add: normalize_image_def np_divide_def)
  have c: "normalize_image img \<noteq> Inl ZeroDivisionError"
    by (simp add: normalize_image_cases)
  have d: "\<exists>s'. load_current_image decode s w = Return s' w
                \<and> ax_image s' = Some img \<and> ax_text s' = None"
    if g: "py_getitem (dicom_files s) (current_index s) = Inr p"
      and dec: "decode p = Some img" and mx: "np_max img = Inr 0"
  proof -
    have ne: "dicom_files s \<noteq> []"
      using g by (auto simp: py_getitem_def split: if_splits)
    have n: "normalize_image img = Inr img"
      using a mx by simp
    show ?thesis
      using g ne dec n
      by (auto simp: load_current_image_def try_render_def draw_annotations_def Let_def
               split: option.splits)
  qed
  from a b c d show ?thesis by blast
qed

theorem zero_maximum_image_not_rescaled_witness:
  "np_max [0, 0, 0, 0] = Inr 0
   \<and> normalize_image [0, 0, 0, 0] = Inr [0, 0, 0, 0]
   \<and> py_getitem (dicom_files ex_labeler) (current_index ex_labeler) = Inr [''scans'', ''a.dcm'']
   \<and> (\<exists>s'. load_current_image (\<lambda>p. Some [0, 0, 0, 0]) ex_labeler ex_world = Return s' ex_world
          \<and> ax_image s' = Some [0, 0, 0, 0] \<and> ax_text s' = None)
   \<and> np_max [0, 1, 2] = Inr 2
   \<and> normalize_image [0, 1, 2] = Inr [0, 127, 255]"
proof -
  have h1: "np_max [0, 0, 0, 0] = Inr 0"
    by (simp add: np_max_def)
  have h2: "py_getitem (dicom_files ex_labeler) (current_index ex_labeler) = Inr [''scans'', ''a.dcm'']"
    by (simp add: ex_labeler_def py_getitem_def)
  have h3: "np_max [0, 1, 2] = Inr 2"
    by (simp add: np_max_def)
  note t = zero_maximum_image_not_rescaled
             [where img = "[0, 0, 0, 0]" and s = ex_labeler and p = "[''scans'', ''a.dcm'']"
                and decode = "\<lambda>p. Some [0, 0, 0, 0]" and w = ex_world]
  from t h1 have a: "normalize_image [0, 0, 0, 0] = Inr [0, 0, 0, 0]"
    by blast
  from t h1 h2 have b: "\<exists>s'. load_current_image (\<lambda>p. Some [0, 0, 0, 0]) ex_labeler ex_world = Return s' ex_world
          \<and> ax_image s' = Some [0, 0, 0, 0] \<and> ax_text s' = None"
    by simp
  from zero_maximum_image_not_rescaled
         [where img = "[0, 1, 2]" and s = ex_labeler and p = "[]" and decode = "\<lambda>p. None"
            and w = ex_world] h3
  have "normalize_image [0, 1, 2] =
          Inr (astype_uint8 (map (\<lambda>v. v * 255) (map (\<lambda>p. real_of_int p / real_of_int 2) [0, 1, 2])))"
    by simp
  then have c: "normalize_image [0, 1, 2] = Inr [0, 127, 255]"
    by (simp add: astype_uint8_def)
  from h1 a h2 b h3 c show ?thesis by blast
qed

section \<open>The directory scan\<close>

lemma path_name_snoc: "path_name (dir @ [n]) = n"
  by (simp add: path_name_def)

lemma rglob_matches:
  "\<forall>p \<in> set (rglob ext dir es). match_ext ext (path_name p)"
  "\<forall>p \<in> set (rglob_sub ext dir e). match_ext ext (path_name p)"
proof (induction ext dir es and ext dir e rule: rglob_rglob_sub.induct)
  case (1 ext dir es)
  then show ?case by (auto simp: path_name_snoc)
next
  case (2 ext dir n)
  then show ?case by simp
next
  case (3 ext dir n sub)
  then show ?case by simp
qed

lemma dcm_not_raster:
  "match_ext ''.dcm'' n \<Longrightarrow> \<not> match_ext ''.jpg'' n \<and> \<not> match_ext ''.png'' n"
  by (auto simp: match_ext_def)

lemma raster_not_dcm:
  "match_ext ''.jpg'' n \<or> match_ext ''.png'' n \<Longrightarrow> \<not> match_ext ''.dcm'' n"
  by (auto simp: match_ext_def)

lemma XRayLabeler_result:
  "case XRayLabeler flt idir ofile w of
     Raise e w' \<Rightarrow> w' = w \<and> (e = StopIteration \<or> e = ValueError)
   | Return s w' \<Rightarrow> w' = w \<and> input_dir s = idir \<and> output_file s = ofile
        \<and> dicom_files s = [] \<and> current_index s = 0 \<and> annotations s = []"
proof -
  have err: "load_rows flt rows d = Inl e \<Longrightarrow> e = ValueError" for rows d e
    by (induction rows arbitrary: d)
       (auto simp: row_annotation_def split: if_splits sum.splits option.splits)
  show ?thesis
    by (auto simp: XRayLabeler_def load_existing_annotations_def
             split: option.splits list.splits sum.splits dest: err)
qed

text \<open>
  Claim C4. When the recursive search for \<^verbatim>\<open>*.dcm\<close> finds something, the scan takes
  exactly that list as the file list, and no path of it has a name matching
  \<^verbatim>\<open>*.jpg\<close> or \<^verbatim>\<open>*.png\<close>. Only when that search finds nothing is the file list the
  \<^verbatim>\<open>*.jpg\<close> matches followed by the \<^verbatim>\<open>*.png\<close> matches, and then no path of it matches
  \<^verbatim>\<open>*.dcm\<close>. So every file list the scan returns is of one family only.
\<close>

theorem scan_prefers_dicom:
  "(rglob ''.dcm'' (input_dir s) tree \<noteq> [] \<longrightarrow>
      scan_directory tree s w =
        Return (s\<lparr>dicom_files := rglob ''.dcm'' (input_dir s) tree\<rparr>)
          (w\<lparr>stdout := stdout w @ [MsgFoundDicom (length (rglob ''.dcm'' (input_dir s) tree))]\<rparr>)
      \<and> (\<forall>p \<in> set (rglob ''.dcm'' (input_dir s) tree).
            match_ext ''.dcm'' (path_name p)
            \<and> \<not> match_ext ''.jpg'' (path_name p) \<and> \<not> match_ext ''.png'' (path_name p)))
   \<and> (\<forall>s' w'. scan_directory tree s w = Return s' w'
          \<and> dicom_files s' \<noteq> rglob ''.dcm'' (input_dir s) tree \<longrightarrow>
        rglob ''.dcm'' (input_dir s) tree = []
        \<and> dicom_files s' = rglob ''.jpg'' (input_dir s) tree @ rglob ''.png'' (input_dir s) tree
        \<and> (\<forall>p \<in> set (dicom_files s').
              \<not> match_ext ''.dcm'' (path_name p)
              \<and> (match_ext ''.jpg'' (path_name p) \<or> match_ext ''.png'' (path_name p))))"
proof -
  let ?dcm = "rglob ''.dcm'' (input_dir s) tree"
  let ?jpg = "rglob ''.jpg'' (input_dir s) tree"
  let ?png = "rglob ''.png'' (input_dir s) tree"
  have d: "\<forall>p \<in> set ?dcm. match_ext ''.dcm'' (path_name p)
            \<and> \<not> match_ext ''.jpg'' (path_name p) \<and> \<not> match_ext ''.png'' (path_name p)"
    using rglob_matches(1) [of "''.dcm''" "input_dir s" tree] dcm_not_raster by blast
  have r: "\<forall>p \<in> set (?jpg @ ?png). \<not> match_ext ''.dcm'' (path_name p)
              \<and> (match_ext ''.jpg'' (path_name p) \<or> match_ext ''.png'' (path_name p))"
  proof
    fix p assume "p \<in> set (?jpg @ ?png)"
    then have "match_ext ''.jpg'' (path_name p) \<or> match_ext ''.png'' (path_name p)"
      using rglob_matches(1) [of "''.jpg''" "input_dir s" tree]
            rglob_matches(1) [of "''.png''" "input_dir s" tree] by auto
    then show "\<not> match_ext ''.dcm'' (path_name p)
              \<and> (match_ext ''.jpg'' (path_name p) \<or> match_ext ''.png'' (path_name p))"
      using raster_not_dcm by blast
  qed
  have a: "?dcm \<noteq> [] \<longrightarrow>
      scan_directory tree s w =
        Return (s\<lparr>dicom_files := ?dcm\<rparr>)
          (w\<lparr>stdout := stdout w @ [MsgFoundDicom (length ?dcm)]\<rparr>)"
    by (simp add: scan_directory_def Let_def)
  have b: "\<forall>s' w'. scan_directory tree s w = Return s' w' \<and> dicom_files s' \<noteq> ?dcm \<longrightarrow>
        ?dcm = [] \<and> dicom_files s' = ?jpg @ ?png
        \<and> (\<forall>p \<in> set (dicom_files s').
              \<not> match_ext ''.dcm'' (path_name p)
              \<and> (match_ext ''.jpg'' (path_name p) \<or> match_ext ''.png'' (path_name p)))"
  proof (intro allI impI)
    fix s' w'
    assume h: "scan_directory tree s w = Return s' w' \<and> dicom_files s' \<noteq> ?dcm"
    then have e: "?dcm = []"
      by (auto simp: scan_directory_def Let_def split: if_splits)
    with h have f: "dicom_files s' = ?jpg @ ?png"
      by (auto simp: scan_directory_def Let_def split: if_splits)
    from e f r show "?dcm = [] \<and> dicom_files s' = ?jpg @ ?png
        \<and> (\<forall>p \<in> set (dicom_files s').
              \<not> match_ext ''.dcm'' (path_name p)
              \<and> (match_ext ''.jpg'' (path_name p) \<or> match_ext ''.png'' (path_name p)))"
      by simp
  qed
  from a d b show ?thesis by blast
qed

theorem scan_prefers_dicom_witness:
  "rglob ''.dcm'' (input_dir ex_labeler) ex_tree \<noteq> []
   \<and> rglob ''.jpg'' (input_dir ex_labeler) ex_tree = [[''scans'', ''sub'', ''c.jpg'']]
   \<and> rglob ''.png'' (input_dir ex_labeler) ex_tree = [[''scans'', ''d.png'']]
   \<and> scan_directory ex_tree ex_labeler ex_world =
        Return (ex_labeler\<lparr>dicom_files := [[''scans'', ''a.dcm''], [''scans'', ''sub'', ''b.dcm'']]\<rparr>)
               (ex_world\<lparr>stdout := [MsgFoundDicom 2]\<rparr>)
   \<and> scan_directory [File ''c.jpg'', File ''d.png'', File ''e.jpg''] ex_labeler ex_world =
        Return (ex_labeler\<lparr>dicom_files :=
                   [[''scans'', ''c.jpg''], [''scans'', ''e.jpg''], [''scans'', ''d.png'']]\<rparr>)
               (ex_world\<lparr>stdout := [MsgFoundImages 3]\<rparr>)"
proof -
  have i: "input_dir ex_labeler = [''scans'']"
    by (simp add: ex_labeler_def)
  have g: "rglob ''.dcm'' (input_dir ex_labeler) ex_tree
             = [[''scans'', ''a.dcm''], [''scans'', ''sub'', ''b.dcm'']]"
    by (simp add: i ex_tree_def match_ext_def)
  have h: "rglob ''.dcm'' (input_dir ex_labeler) ex_tree \<noteq> []"
    unfolding g by simp
  have j: "rglob ''.jpg'' (input_dir ex_labeler) ex_tree = [[''scans'', ''sub'', ''c.jpg'']]"
    by (simp add: i ex_tree_def match_ext_def)
  have k: "rglob ''.png'' (input_dir ex_labeler) ex_tree = [[''scans'', ''d.png'']]"
    by (simp add: i ex_tree_def match_ext_def)
  from scan_prefers_dicom [where s = ex_labeler and tree = ex_tree and w = ex_world] h
  have "scan_directory ex_tree ex_labeler ex_world =
        Return (ex_labeler\<lparr>dicom_files := rglob ''.dcm'' (input_dir ex_labeler) ex_tree\<rparr>)
          (ex_world\<lparr>stdout := stdout ex_world
             @ [MsgFoundDicom (length (rglob ''.dcm'' (input_dir ex_labeler) ex_tree))]\<rparr>)"
    by blast
  then have a: "scan_directory ex_tree ex_labeler ex_world =
        Return (ex_labeler\<lparr>dicom_files := [[''scans'', ''a.dcm''], [''scans'', ''sub'', ''b.dcm'']]\<rparr>)
               (ex_world\<lparr>stdout := [MsgFoundDicom 2]\<rparr>)"
    unfolding g by (simp add: ex_world_def)
  have b: "scan_directory [File ''c.jpg'', File ''d.png'', File ''e.jpg''] ex_labeler ex_world =
        Return (ex_labeler\<lparr>dicom_files :=
                   [[''scans'', ''c.jpg''], [''scans'', ''e.jpg''], [''scans'', ''d.png'']]\<rparr>)
               (ex_world\<lparr>stdout := [MsgFoundImages 3]\<rparr>)"
    by (simp add: scan_directory_def i match_ext_def ex_world_def)
  from h j k a b show ?thesis by blast
qed

text \<open>
  Claim C5. When none of the three searches finds a path, \<^verbatim>\<open>start_labeling\<close> prints
  the message that names the input directory and raises \<^verbatim>\<open>SystemExit(1)\<close>, whatever
  the events would have been; the world is otherwise as before. For the whole program:
  once the constructor has returned, \<^verbatim>\<open>main\<close> ends in that same way; in every case
  \<^verbatim>\<open>main\<close> ends by an exception of non-zero exit status and leaves every CSV file as
  it was, so the output file is not written.
\<close>

theorem no_image_files_exit:
  assumes "rglob ''.dcm'' idir tree = []"
      and "rglob ''.jpg'' idir tree = []"
      and "rglob ''.png'' idir tree = []"
  shows "(input_dir s = idir \<longrightarrow>
            start_labeling str decode tree evs s w =
              Raise (SystemExit 1) (w\<lparr>stdout := stdout w @ [MsgNoFiles idir]\<rparr>))
       \<and> (\<forall>s1 w1. XRayLabeler flt idir ofile w = Return s1 w1 \<longrightarrow>
            main flt str decode tree evs idir ofile w =
              Raise (SystemExit 1) (w\<lparr>stdout := stdout w @ [MsgNoFiles idir]\<rparr>))
       \<and> exit_status (SystemExit 1) \<noteq> 0
       \<and> (\<exists>e w'. main flt str decode tree evs idir ofile w = Raise e w'
              \<and> exit_status e \<noteq> 0 \<and> fs_csv w' = fs_csv w)"
proof -
  have a: "start_labeling str decode tree evs t v =
              Raise (SystemExit 1) (v\<lparr>stdout := stdout v @ [MsgNoFiles idir]\<rparr>)"
    if "input_dir t = idir" for t v
    using that assms by (simp add: start_labeling_def scan_directory_def)
  note x = XRayLabeler_result [where flt = flt and idir = idir and ofile = ofile and w = w]
  have b: "\<forall>s1 w1. XRayLabeler flt idir ofile w = Return s1 w1 \<longrightarrow>
            main flt str decode tree evs idir ofile w =
              Raise (SystemExit 1) (w\<lparr>stdout := stdout w @ [MsgNoFiles idir]\<rparr>)"
    using x by (auto simp: main_def a)
  have c: "\<exists>e w'. main flt str decode tree evs idir ofile w = Raise e w'
              \<and> exit_status e \<noteq> 0 \<and> fs_csv w' = fs_csv w"
    using x by (cases "XRayLabeler flt idir ofile w") (auto simp: main_def a)
  from a [of s w] b c show ?thesis by simp
qed

theorem no_image_files_exit_witness:
  "rglob ''.dcm'' [''scans''] [File ''notes.txt'', Dir ''sub'' [File ''readme.md'']] = []
   \<and> rglob ''.jpg'' [''scans''] [File ''notes.txt'', Dir ''sub'' [File ''readme.md'']] = []
   \<and> rglob ''.png'' [''scans''] [File ''notes.txt'', Dir ''sub'' [File ''readme.md'']] = []
   \<and> XRayLabeler py_float [''scans''] [''labels.csv''] ex_world
        = Return (ex_labeler\<lparr>dicom_files := [], annotations := [], existing_annotations := []\<rparr>)
            ex_world
   \<and> main py_float str_whole (\<lambda>p. None) [File ''notes.txt'', Dir ''sub'' [File ''readme.md'']]
        [ClickSave] [''scans''] [''labels.csv''] ex_world
      = Raise (SystemExit 1) (ex_world\<lparr>stdout := [MsgNoFiles [''scans'']]\<rparr>)"
proof -
  let ?tree = "[File ''notes.txt'', Dir ''sub'' [File ''readme.md'']]"
  have h1: "rglob ''.dcm'' [''scans''] ?tree = []"
    by (simp add: match_ext_def)
  have h2: "rglob ''.jpg'' [''scans''] ?tree = []"
    by (simp add: match_ext_def)
  have h3: "rglob ''.png'' [''scans''] ?tree = []"
    by (simp add: match_ext_def)
  have h4: "XRayLabeler py_float [''scans''] [''labels.csv''] ex_world
        = Return (ex_labeler\<lparr>dicom_files := [], annotations := [], existing_annotations := []\<rparr>)
            ex_world"
    by (simp add: XRayLabeler_def load_existing_annotations_def ex_world_def ex_labeler_def)
  from no_image_files_exit [OF h1 h2 h3, where flt = py_float and ofile = "[''labels.csv'']"
         and w = ex_world and str = str_whole and decode = "\<lambda>p. None" and evs = "[ClickSave]"] h4
  have "main py_float str_whole (\<lambda>p. None) ?tree [ClickSave] [''scans''] [''labels.csv''] ex_world
      = Raise (SystemExit 1) (ex_world\<lparr>stdout := stdout ex_world @ [MsgNoFiles [''scans'']]\<rparr>)"
    by blast
  then have m: "main py_float str_whole (\<lambda>p. None) ?tree [ClickSave] [''scans''] [''labels.csv''] ex_world
      = Raise (SystemExit 1) (ex_world\<lparr>stdout := [MsgNoFiles [''scans'']]\<rparr>)"
    by (simp add: ex_world_def)
  from h1 h2 h3 h4 m show ?thesis by blast
qed

section \<open>Loading what was saved\<close>

lemma set_dict_setitem: "set (dict_setitem k v d) \<subseteq> insert (k, v) (set d)"
  by (induction d) auto

lemma csv_row_annotation:
  "survives_text flt str (snd kv) \<Longrightarrow> row_annotation flt (csv_row str kv) = Inr (snd kv)"
  by (simp add: survives_text_def row_annotation_def csv_row_def)

lemma load_rows_saved:
  assumes "dict_ok (acc @ m)"
      and "\<forall>kv \<in> set m. survives_text flt str (snd kv)"
  shows "load_rows flt (map (csv_row str) m) acc = Inr (acc @ m)"
  using assms
proof (induction m arbitrary: acc)
  case Nil
  then show ?case by simp
next
  case (Cons kv m)
  have len: "length (csv_row str kv) \<ge> 5" and key: "csv_row str kv ! 0 = fst kv"
    by (simp_all add: csv_row_def)
  have ann: "row_annotation flt (csv_row str kv) = Inr (snd kv)"
    using Cons.prems(2) by (simp add: csv_row_annotation)
  have new: "fst kv \<notin> fst ` set acc"
    using Cons.prems(1) by (auto simp: dict_ok_def)
  have step: "dict_setitem (fst kv) (snd kv) acc = acc @ [kv]"
    using dict_setitem_new [OF new] by simp
  have ok: "dict_ok ((acc @ [kv]) @ m)"
    using Cons.prems(1) by simp
  have "load_rows flt (map (csv_row str) (kv # m)) acc
          = load_rows flt (map (csv_row str) m) (acc @ [kv])"
    using len by (simp add: key ann step)
  also have "\<dots> = Inr ((acc @ [kv]) @ m)"
    using Cons.IH [OF ok] Cons.prems(2) by simp
  finally show ?case by simp
qed

lemma XRayLabeler_saved:
  assumes "fs_csv w ofile = Some (csv_header # map (csv_row str) m)"
      and "dict_ok m"
      and "\<forall>kv \<in> set m. survives_text flt str (snd kv)"
  shows "XRayLabeler flt idir ofile w =
           Return \<lparr>input_dir = idir, output_file = ofile, dicom_files = [], current_index = 0,
                   annotations = [], existing_annotations = m,
                   ax_image = None, ax_title = None, ax_text = None, ax_patches = []\<rparr> w"
proof -
  have "load_rows flt (map (csv_row str) m) [] = Inr ([] @ m)"
    by (rule load_rows_saved) (use assms in simp_all)
  then show ?thesis
    using assms(1) by (simp add: XRayLabeler_def load_existing_annotations_def)
qed

lemma session_inv_combined:
  "session_inv m ofile file s w \<Longrightarrow> combined_annotations s = m"
  by (simp add: session_inv_def combined_annotations_def unpack2_absorb)

lemma session_inv_event:
  assumes "session_inv m ofile (csv_header # map (csv_row str) m) s w"
      and "\<not> is_select ev"
  shows "\<exists>s' w'. handle_event str decode ev s w = Return s' w'
           \<and> session_inv m ofile (csv_header # map (csv_row str) m) s' w'"
proof -
  have i: "index_ok s"
    using assms(1) by (simp add: session_inv_def)
  obtain s' w' where r: "handle_event str decode ev s w = Return s' w'"
    using handle_event_frame [OF i, where str = str and decode = decode and ev = ev and w = w]
    by (cases "handle_event str decode ev s w") auto
  from handle_event_frame [OF i, where str = str and decode = decode and ev = ev and w = w] r assms(2)
  have f: "index_ok s'" "existing_annotations s' = existing_annotations s"
      "output_file s' = output_file s"
    and a: "annotations s' = annotations s
            \<or> (\<exists>k a. map_of (existing_annotations s) k = Some a
                    \<and> annotations s' = dict_setitem k a (annotations s))"
    and c: "fs_csv w' = fs_csv w
            \<or> (fs_csv w' = (fs_csv w)(output_file s \<mapsto>
                    csv_header # map (csv_row str) (combined_annotations s)))"
    by auto
  have a': "\<forall>kv \<in> set (annotations s'). map_of m (fst kv) = Some (snd kv)"
    using a assms(1) set_dict_setitem by (fastforce simp: session_inv_def)
  have c': "fs_csv w' ofile = Some (csv_header # map (csv_row str) m)"
    using c assms(1) session_inv_combined [OF assms(1)] by (auto simp: session_inv_def)
  from f a' c' assms(1) have "session_inv m ofile (csv_header # map (csv_row str) m) s' w'"
    by (simp add: session_inv_def)
  with r show ?thesis by blast
qed

lemma session_inv_loop:
  assumes "session_inv m ofile (csv_header # map (csv_row str) m) s w"
      and "\<forall>ev \<in> set evs. \<not> is_select ev"
  shows "\<exists>s' w'. show_loop str decode evs s w = Return s' w'
           \<and> session_inv m ofile (csv_header # map (csv_row str) m) s' w'"
  using assms
proof (induction evs arbitrary: s w)
  case Nil
  then show ?case by simp
next
  case (Cons ev evs)
  from Cons.prems have "\<not> is_select ev" by simp
  from session_inv_event [OF Cons.prems(1) this, where decode = decode]
  obtain s1 w1 where r: "handle_event str decode ev s w = Return s1 w1"
    and i: "session_inv m ofile (csv_header # map (csv_row str) m) s1 w1"
    by blast
  from Cons.IH [OF i] Cons.prems(2) r show ?case by simp
qed

lemma show_loop_append:
  "show_loop str decode (xs @ ys) s w =
     (case show_loop str decode xs s w of
        Raise e w' \<Rightarrow> Raise e w'
      | Return s' w' \<Rightarrow> show_loop str decode ys s' w')"
  by (induction xs arbitrary: s w) (simp_all split: outcome.splits)


lemma main_append:
  "main flt str decode tree (xs @ ys) idir ofile w =
     (case main flt str decode tree xs idir ofile w of
        Raise e w' \<Rightarrow> Raise e w'
      | Return s' w' \<Rightarrow> show_loop str decode ys s' w')"
  by (simp add: main_def start_labeling_def show_loop_append split: outcome.splits)

lemma scan_directory_result:
  "case scan_directory tree s w of
     Raise e w' \<Rightarrow> e = SystemExit 1 \<and> fs_csv w' = fs_csv w
        \<and> rglob ''.dcm'' (input_dir s) tree = [] \<and> rglob ''.jpg'' (input_dir s) tree = []
        \<and> rglob ''.png'' (input_dir s) tree = []
   | Return s' w' \<Rightarrow> fs_csv w' = fs_csv w \<and> dicom_files s' \<noteq> []
        \<and> s' = s\<lparr>dicom_files := dicom_files s'\<rparr>
        \<and> (rglob ''.dcm'' (input_dir s) tree \<noteq> [] \<or> rglob ''.jpg'' (input_dir s) tree \<noteq> []
            \<or> rglob ''.png'' (input_dir s) tree \<noteq> [])"
  by (auto simp: scan_directory_def Let_def)

lemma start_labeling_session:
  assumes "existing_annotations s = m" and "output_file s = ofile"
      and "annotations s = []" and "current_index s = 0"
      and "fs_csv w ofile = Some (csv_header # map (csv_row str) m)"
      and "\<forall>ev \<in> set evs. \<not> is_select ev"
  shows "case start_labeling str decode tree evs s w of
           Raise e w' \<Rightarrow> fs_csv w' = fs_csv w
              \<and> rglob ''.dcm'' (input_dir s) tree = [] \<and> rglob ''.jpg'' (input_dir s) tree = []
              \<and> rglob ''.png'' (input_dir s) tree = []
         | Return s' w' \<Rightarrow> session_inv m ofile (csv_header # map (csv_row str) m) s' w'"
proof (cases "scan_directory tree s w")
  case (Raise e w1)
  with scan_directory_result [where tree = tree and s = s and w = w] show ?thesis
    by (simp add: start_labeling_def)
next
  case (Return s1 w1)
  with scan_directory_result [where tree = tree and s = s and w = w]
  have w1: "fs_csv w1 = fs_csv w" and ne: "dicom_files s1 \<noteq> []"
    and s1: "s1 = s\<lparr>dicom_files := dicom_files s1\<rparr>"
    by simp_all
  have f1: "existing_annotations s1 = m" "output_file s1 = ofile" "annotations s1 = []"
           "current_index s1 = 0"
    using assms(1-4) by (subst s1, simp)+
  have i1: "index_ok s1"
    using ne f1(4) by (simp add: index_ok_def)
  obtain s2 w2 where r2: "load_current_image decode s1 w1 = Return s2 w2"
    using load_current_image_frame [OF i1, where decode = decode and w = w1]
    by (cases "load_current_image decode s1 w1") auto
  from load_current_image_frame [OF i1, where decode = decode and w = w1] r2
  have f2: "dicom_files s2 = dicom_files s1" "current_index s2 = current_index s1"
      "existing_annotations s2 = existing_annotations s1" "output_file s2 = output_file s1"
      "fs_csv w2 = fs_csv w1"
    and a2: "annotations s2 = annotations s1
            \<or> (\<exists>k a. map_of (existing_annotations s1) k = Some a
                    \<and> annotations s2 = dict_setitem k a (annotations s1))"
    by auto
  have a2': "\<forall>kv \<in> set (annotations s2). map_of m (fst kv) = Some (snd kv)"
    using a2 f1 by auto
  have "session_inv m ofile (csv_header # map (csv_row str) m) s2 w2"
    using i1 f1 f2 a2' w1 assms(5) by (simp add: session_inv_def index_ok_def)
  from session_inv_loop [OF this assms(6), where decode = decode]
  obtain s3 w3 where "show_loop str decode evs s2 w2 = Return s3 w3"
    and "session_inv m ofile (csv_header # map (csv_row str) m) s3 w3"
    by blast
  with Return r2 show ?thesis
    by (simp add: start_labeling_def setup_display_def)
qed


text \<open>
  Claim C3. Take the file that a save has written from layers with pairwise different
  file names, with numbers that come back from their text. A later run that starts from
  this file loads, as its existing layer, exactly the merged map that was saved: the
  same file names with the same numbers, in the same order. If no rectangle is drawn in
  that run, then whatever is clicked (Previous, Next, Save, any number of times) the
  output file holds the original rows at the end; and when the scan finds images, the
  run with a final Save returns, the Save has been done and the file holds the
  original header and data rows again.
\<close>

theorem load_then_save_reproduces_rows:
  assumes "dict_ok (existing_annotations s0)"
      and "\<forall>kv \<in> set (combined_annotations s0). survives_text flt str (snd kv)"
      and "save_annotations str s0 w0 = Return s0 w1"
      and "\<forall>ev \<in> set evs. \<not> is_select ev"
  shows "fs_csv w1 (output_file s0)
           = Some (csv_header # map (csv_row str) (combined_annotations s0))
       \<and> (\<exists>s. XRayLabeler flt idir (output_file s0) w1 = Return s w1
               \<and> existing_annotations s = combined_annotations s0 \<and> annotations s = [])
       \<and> fs_csv (outcome_world (main flt str decode tree evs idir (output_file s0) w1))
             (output_file s0)
           = fs_csv w1 (output_file s0)
       \<and> (rglob ''.dcm'' idir tree \<noteq> [] \<or> rglob ''.jpg'' idir tree \<noteq> []
            \<or> rglob ''.png'' idir tree \<noteq> [] \<longrightarrow>
           (\<exists>s' w'. main flt str decode tree (evs @ [ClickSave]) idir (output_file s0) w1
                       = Return s' w'
                 \<and> fs_csv w' (output_file s0) = fs_csv w1 (output_file s0)
                 \<and> last (stdout w') = MsgSaved (output_file s0)))"
proof -
  let ?m = "combined_annotations s0"
  let ?ofile = "output_file s0"
  let ?file = "csv_header # map (csv_row str) ?m"
  let ?s = "\<lparr>input_dir = idir, output_file = ?ofile, dicom_files = [], current_index = 0,
             annotations = [], existing_annotations = ?m,
             ax_image = None, ax_title = None, ax_text = None, ax_patches = []\<rparr>"
  have saved: "fs_csv w1 ?ofile = Some ?file"
    using assms(3) by (auto simp: save_annotations_def)
  have ok: "dict_ok ?m"
    using assms(1) by (simp add: combined_annotations_def dict_ok_unpack2)
  have init: "XRayLabeler flt idir ?ofile w1 = Return ?s w1"
    using XRayLabeler_saved [OF saved ok assms(2)] .
  have mn: "main flt str decode tree evs idir ?ofile w1 = start_labeling str decode tree evs ?s w1"
    by (simp add: main_def init)
  have run0: "case start_labeling str decode tree evs ?s w1 of
           Raise e w' \<Rightarrow> fs_csv w' = fs_csv w1
              \<and> rglob ''.dcm'' (input_dir ?s) tree = []
              \<and> rglob ''.jpg'' (input_dir ?s) tree = []
              \<and> rglob ''.png'' (input_dir ?s) tree = []
         | Return s' w' \<Rightarrow> session_inv ?m ?ofile ?file s' w'"
    by (rule start_labeling_session) (simp_all add: saved assms(4))
  have dir: "input_dir ?s = idir"
    by simp
  have run: "case start_labeling str decode tree evs ?s w1 of
           Raise e w' \<Rightarrow> fs_csv w' = fs_csv w1
              \<and> rglob ''.dcm'' idir tree = [] \<and> rglob ''.jpg'' idir tree = []
              \<and> rglob ''.png'' idir tree = []
         | Return s' w' \<Rightarrow> session_inv ?m ?ofile ?file s' w'"
    using run0 unfolding dir .
  have a: "\<exists>s. XRayLabeler flt idir ?ofile w1 = Return s w1
               \<and> existing_annotations s = ?m \<and> annotations s = []"
    using init by simp
  have b: "fs_csv (outcome_world (main flt str decode tree evs idir ?ofile w1)) ?ofile
           = fs_csv w1 ?ofile"
    using run saved
    by (cases "start_labeling str decode tree evs ?s w1") (simp_all add: mn session_inv_def)
  have c: "\<exists>s' w'. main flt str decode tree (evs @ [ClickSave]) idir ?ofile w1 = Return s' w'
                 \<and> fs_csv w' ?ofile = fs_csv w1 ?ofile
                 \<and> last (stdout w') = MsgSaved ?ofile"
    if found: "rglob ''.dcm'' idir tree \<noteq> [] \<or> rglob ''.jpg'' idir tree \<noteq> []
            \<or> rglob ''.png'' idir tree \<noteq> []"
  proof -
    from run found obtain s2 w2
      where r: "start_labeling str decode tree evs ?s w1 = Return s2 w2"
        and i: "session_inv ?m ?ofile ?file s2 w2"
      by (cases "start_labeling str decode tree evs ?s w1") auto
    have cm: "combined_annotations s2 = ?m"
      using i by (rule session_inv_combined)
    have o: "output_file s2 = ?ofile"
      using i by (simp add: session_inv_def)
    have "main flt str decode tree (evs @ [ClickSave]) idir ?ofile w1
            = show_loop str decode [ClickSave] s2 w2"
      by (simp add: main_append mn r)
    also have "\<dots> = Return s2
                 (w2\<lparr>fs_csv := (fs_csv w2)(?ofile \<mapsto> ?file),
                     stdout := stdout w2 @ [MsgSaved ?ofile]\<rparr>)"
      by (simp add: handle_event_def save_annotations_def cm o)
    finally show ?thesis
      using saved by simp
  qed
  from saved a b c show ?thesis by blast
qed

theorem load_then_save_reproduces_rows_witness:
  "dict_ok (existing_annotations ex_labeler)
   \<and> survives_text py_float str_whole \<lparr>ann_x = 1, ann_y = 2, ann_width = 3, ann_height = 4\<rparr>
   \<and> survives_text py_float str_whole \<lparr>ann_x = 5, ann_y = 6, ann_width = 7, ann_height = 8\<rparr>
   \<and> fs_csv (outcome_world (save_annotations str_whole ex_labeler ex_world)) [''labels.csv'']
       = Some [[''filename'', ''x'', ''y'', ''width'', ''height''],
               [''a.dcm'', ''1.0'', ''2.0'', ''3.0'', ''4.0''],
               [''b.dcm'', ''5.0'', ''6.0'', ''7.0'', ''8.0'']]
   \<and> (\<exists>s' w'. main py_float str_whole (\<lambda>p. Some [0, 1, 2]) ex_tree
                 ([ClickNext, ClickPrevious] @ [ClickSave]) [''scans''] [''labels.csv'']
                 (outcome_world (save_annotations str_whole ex_labeler ex_world))
               = Return s' w'
         \<and> fs_csv w' [''labels.csv'']
             = Some [[''filename'', ''x'', ''y'', ''width'', ''height''],
                     [''a.dcm'', ''1.0'', ''2.0'', ''3.0'', ''4.0''],
                     [''b.dcm'', ''5.0'', ''6.0'', ''7.0'', ''8.0'']])"
proof -
  let ?w1 = "outcome_world (save_annotations str_whole ex_labeler ex_world)"
  have o: "output_file ex_labeler = [''labels.csv'']"
    by (simp add: ex_labeler_def)
  have cm: "combined_annotations ex_labeler =
              [(''a.dcm'', \<lparr>ann_x = 1, ann_y = 2, ann_width = 3, ann_height = 4\<rparr>),
               (''b.dcm'', \<lparr>ann_x = 5, ann_y = 6, ann_width = 7, ann_height = 8\<rparr>)]"
    by (simp add: combined_annotations_def dict_unpack2_def ex_labeler_def)
  have h1: "dict_ok (existing_annotations ex_labeler)"
    by (simp add: dict_ok_def ex_labeler_def)
  have t1: "survives_text py_float str_whole \<lparr>ann_x = 1, ann_y = 2, ann_width = 3, ann_height = 4\<rparr>"
    by (simp add: survives_text_def str_whole_def nat_digits.simps py_float_def
          unsigned_decimal_def digit_of_def)
  have t2: "survives_text py_float str_whole \<lparr>ann_x = 5, ann_y = 6, ann_width = 7, ann_height = 8\<rparr>"
    by (simp add: survives_text_def str_whole_def nat_digits.simps py_float_def
          unsigned_decimal_def digit_of_def)
  have h2: "\<forall>kv \<in> set (combined_annotations ex_labeler). survives_text py_float str_whole (snd kv)"
    using t1 t2 by (simp add: cm)
  have h3: "save_annotations str_whole ex_labeler ex_world = Return ex_labeler ?w1"
    by (simp add: save_annotations_def)
  have h4: "\<forall>ev \<in> set [ClickNext, ClickPrevious]. \<not> is_select ev"
    by simp
  have f: "fs_csv ?w1 [''labels.csv'']
       = Some [[''filename'', ''x'', ''y'', ''width'', ''height''],
               [''a.dcm'', ''1.0'', ''2.0'', ''3.0'', ''4.0''],
               [''b.dcm'', ''5.0'', ''6.0'', ''7.0'', ''8.0'']]"
    by (simp add: save_annotations_def o cm csv_header_def csv_row_def str_whole_def
          nat_digits.simps)
  have g: "rglob ''.dcm'' [''scans''] ex_tree \<noteq> []"
    by (simp add: ex_tree_def match_ext_def)
  from load_then_save_reproduces_rows
         [OF h1 h2 h3 h4, where idir = "[''scans'']" and tree = ex_tree
            and decode = "\<lambda>p. Some [0, 1, 2]"] g
  obtain s' w' where
    "main py_float str_whole (\<lambda>p. Some [0, 1, 2]) ex_tree
        ([ClickNext, ClickPrevious] @ [ClickSave]) [''scans''] (output_file ex_labeler) ?w1
       = Return s' w'"
    and "fs_csv w' (output_file ex_labeler) = fs_csv ?w1 (output_file ex_labeler)"
    by blast
  then have "main py_float str_whole (\<lambda>p. Some [0, 1, 2]) ex_tree
        ([ClickNext, ClickPrevious] @ [ClickSave]) [''scans''] [''labels.csv''] ?w1
       = Return s' w'
       \<and> fs_csv w' [''labels.csv'']
             = Some [[''filename'', ''x'', ''y'', ''width'', ''height''],
                     [''a.dcm'', ''1.0'', ''2.0'', ''3.0'', ''4.0''],
                     [''b.dcm'', ''5.0'', ''6.0'', ''7.0'', ''8.0'']]"
    by (simp only: o f)
  with h1 t1 t2 f show ?thesis by blast
qed

section \<open>Short rows and rows that do not convert\<close>

lemma row_annotation_error: "row_annotation flt r = Inl e \<Longrightarrow> e = ValueError"
  by (auto simp: row_annotation_def split: option.splits)

lemma row_annotation_fields:
  "row_annotation flt r = Inr \<lparr>ann_x = vx, ann_y = vy, ann_width = vw, ann_height = vh\<rparr>
     \<longleftrightarrow> flt (r ! 1) = Some vx \<and> flt (r ! 2) = Some vy
          \<and> flt (r ! 3) = Some vw \<and> flt (r ! 4) = Some vh"
  by (auto simp: row_annotation_def split: option.splits)

lemma load_rows_filter:
  "load_rows flt rows d = load_rows flt (filter (\<lambda>r. 5 \<le> length r) rows) d"
  by (induction rows arbitrary: d) (simp_all split: sum.splits)

lemma load_rows_error_iff:
  "load_rows flt rows d = Inl ValueError
     \<longleftrightarrow> (\<exists>r \<in> set rows. 5 \<le> length r \<and> row_annotation flt r = Inl ValueError)"
proof (induction rows arbitrary: d)
  case Nil
  then show ?case by simp
next
  case (Cons r rows)
  show ?case
  proof (cases "5 \<le> length r")
    case False
    then show ?thesis using Cons.IH [of d] by auto
  next
    case True
    show ?thesis
    proof (cases "row_annotation flt r")
      case (Inl e)
      then have "e = ValueError" by (rule row_annotation_error)
      with Inl True show ?thesis by auto
    next
      case (Inr a)
      with True Cons.IH [of "dict_setitem (r ! 0) a d"] show ?thesis by auto
    qed
  qed
qed

lemma load_rows_only_value_error: "load_rows flt rows d = Inl e \<Longrightarrow> e = ValueError"
  by (induction rows arbitrary: d)
     (auto split: if_splits sum.splits dest: row_annotation_error)

lemma load_rows_long:
  assumes "\<forall>r \<in> set rows. 5 \<le> length r \<and> (\<exists>a. row_annotation flt r = Inr a)"
  shows "\<exists>d'. load_rows flt rows d = Inr d'
           \<and> fst ` set d' = fst ` set d \<union> (\<lambda>r. r ! 0) ` set rows
           \<and> (\<forall>k. k \<notin> (\<lambda>r. r ! 0) ` set rows \<longrightarrow> map_of d' k = map_of d k)
           \<and> (\<forall>pre r post a. rows = pre @ r # post \<and> row_annotation flt r = Inr a
                  \<and> r ! 0 \<notin> (\<lambda>q. q ! 0) ` set post
                \<longrightarrow> map_of d' (r ! 0) = Some a)"
  using assms
proof (induction rows arbitrary: d)
  case Nil
  then show ?case by simp
next
  case (Cons r0 rows)
  from Cons.prems obtain a0 where len: "5 \<le> length r0" and a0: "row_annotation flt r0 = Inr a0"
    by auto
  let ?d1 = "dict_setitem (r0 ! 0) a0 d"
  from Cons.prems have rest: "\<forall>r \<in> set rows. 5 \<le> length r \<and> (\<exists>a. row_annotation flt r = Inr a)"
    by simp
  from Cons.IH [OF rest, of ?d1] obtain d' where
    ld: "load_rows flt rows ?d1 = Inr d'"
    and keys: "fst ` set d' = fst ` set ?d1 \<union> (\<lambda>r. r ! 0) ` set rows"
    and out: "\<forall>k. k \<notin> (\<lambda>r. r ! 0) ` set rows \<longrightarrow> map_of d' k = map_of ?d1 k"
    and lst: "\<forall>pre r post a. rows = pre @ r # post \<and> row_annotation flt r = Inr a
                  \<and> r ! 0 \<notin> (\<lambda>q. q ! 0) ` set post
                \<longrightarrow> map_of d' (r ! 0) = Some a"
    by blast
  have k1: "fst ` set ?d1 = insert (r0 ! 0) (fst ` set d)"
    using keys_dict_setitem [of "r0 ! 0" a0 d]
    by (metis (no_types, lifting) insert_absorb list.set_map set_append list.simps(15)
        Un_insert_right sup_bot.right_neutral empty_set)
  have c1: "load_rows flt (r0 # rows) d = Inr d'"
    using len a0 ld by simp
  have c2: "fst ` set d' = fst ` set d \<union> (\<lambda>r. r ! 0) ` set (r0 # rows)"
    using keys k1 by auto
  have c3: "\<forall>k. k \<notin> (\<lambda>r. r ! 0) ` set (r0 # rows) \<longrightarrow> map_of d' k = map_of d k"
    using out by (simp add: map_of_dict_setitem)
  have c4: "\<forall>pre r post a. r0 # rows = pre @ r # post \<and> row_annotation flt r = Inr a
                  \<and> r ! 0 \<notin> (\<lambda>q. q ! 0) ` set post
                \<longrightarrow> map_of d' (r ! 0) = Some a"
  proof (intro allI impI)
    fix pre r post a
    assume h: "r0 # rows = pre @ r # post \<and> row_annotation flt r = Inr a
                  \<and> r ! 0 \<notin> (\<lambda>q. q ! 0) ` set post"
    show "map_of d' (r ! 0) = Some a"
    proof (cases pre)
      case Nil
      with h have e: "r = r0" "post = rows" by simp_all
      with h a0 have "a = a0" by simp
      moreover have "map_of d' (r0 ! 0) = map_of ?d1 (r0 ! 0)"
        using out h e by simp
      ultimately show ?thesis
        using e by (simp add: map_of_dict_setitem)
    next
      case (Cons x pre')
      with h have "rows = pre' @ r # post" by simp
      with lst h show ?thesis by blast
    qed
  qed
  from c1 c2 c3 c4 show ?case by blast
qed


text \<open>
  Claim C6 fails as it is stated: a data row of five fields whose second field is not
  numeric text is not accepted; the conversion raises \<^verbatim>\<open>ValueError\<close>, the constructor
  does not return and no layer is loaded.
\<close>

theorem five_field_row_not_accepted_counterexample:
  "length [''img1.dcm'', ''abc'', ''1'', ''2'', ''3''] \<ge> 5
   \<and> py_float ''abc'' = None
   \<and> XRayLabeler py_float [''scans''] [''labels.csv'']
        (ex_file_world [[''filename'', ''x'', ''y'', ''width'', ''height''],
                        [''img1.dcm'', ''abc'', ''1'', ''2'', ''3'']])
      = Raise ValueError
          (ex_file_world [[''filename'', ''x'', ''y'', ''width'', ''height''],
                          [''img1.dcm'', ''abc'', ''1'', ''2'', ''3'']])"
  by (simp add: XRayLabeler_def load_existing_annotations_def row_annotation_def
        py_float_def unsigned_decimal_def digit_of_def ex_file_world_def)

text \<open>
  Claim C6, amended. When the output file exists with a header row: loading is the
  loading of the rows of at least five fields alone, so a shorter row is passed over
  without an error and adds nothing, and a file whose data rows are all shorter returns
  with the layer as it was. Loading raises exactly when some row of at least five fields
  has a field among its second to fifth that is not numeric text, and the exception is
  \<^verbatim>\<open>ValueError\<close>. Otherwise loading returns; the file names of the new layer are those
  of the old layer and the first fields of the rows of at least five fields, and each
  such row that no later such row with the same first field follows is stored under its
  first field with its four converted numbers.
\<close>

theorem load_skips_short_rows:
  assumes "fs_csv w (output_file s) = Some (hdr # rows)"
  shows "load_existing_annotations flt s w
           = (case load_rows flt (filter (\<lambda>r. 5 \<le> length r) rows) (existing_annotations s) of
                Inl e \<Rightarrow> Raise e w
              | Inr d \<Rightarrow> Return (s\<lparr>existing_annotations := d\<rparr>) w)
       \<and> ((\<forall>r \<in> set rows. length r < 5) \<longrightarrow> load_existing_annotations flt s w = Return s w)
       \<and> ((\<exists>r \<in> set rows. 5 \<le> length r
               \<and> (flt (r ! 1) = None \<or> flt (r ! 2) = None \<or> flt (r ! 3) = None
                   \<or> flt (r ! 4) = None))
            \<longleftrightarrow> load_existing_annotations flt s w = Raise ValueError w)
       \<and> ((\<exists>e w'. load_existing_annotations flt s w = Raise e w')
            \<longleftrightarrow> load_existing_annotations flt s w = Raise ValueError w)
       \<and> (\<forall>s' w'. load_existing_annotations flt s w = Return s' w' \<longrightarrow>
              w' = w \<and> s' = s\<lparr>existing_annotations := existing_annotations s'\<rparr>
              \<and> fst ` set (existing_annotations s')
                   = fst ` set (existing_annotations s)
                       \<union> (\<lambda>r. r ! 0) ` {r \<in> set rows. 5 \<le> length r}
              \<and> (\<forall>pre r post vx vy vw vh.
                    rows = pre @ r # post \<and> 5 \<le> length r
                    \<and> flt (r ! 1) = Some vx \<and> flt (r ! 2) = Some vy
                    \<and> flt (r ! 3) = Some vw \<and> flt (r ! 4) = Some vh
                    \<and> (\<forall>q \<in> set post. 5 \<le> length q \<longrightarrow> q ! 0 \<noteq> r ! 0)
                  \<longrightarrow> map_of (existing_annotations s') (r ! 0)
                        = Some \<lparr>ann_x = vx, ann_y = vy, ann_width = vw, ann_height = vh\<rparr>))"
proof -
  let ?long = "filter (\<lambda>r. 5 \<le> length r) rows"
  let ?d = "existing_annotations s"
  have unf: "load_existing_annotations flt s w
           = (case load_rows flt rows ?d of
                Inl e \<Rightarrow> Raise e w
              | Inr d \<Rightarrow> Return (s\<lparr>existing_annotations := d\<rparr>) w)"
    using assms by (simp add: load_existing_annotations_def)
  have flt: "load_rows flt rows ?d = load_rows flt ?long ?d"
    by (rule load_rows_filter)
  have a: "load_existing_annotations flt s w
           = (case load_rows flt ?long ?d of
                Inl e \<Rightarrow> Raise e w
              | Inr d \<Rightarrow> Return (s\<lparr>existing_annotations := d\<rparr>) w)"
    using unf flt by simp
  have b: "(\<forall>r \<in> set rows. length r < 5) \<longrightarrow> load_existing_annotations flt s w = Return s w"
  proof
    assume "\<forall>r \<in> set rows. length r < 5"
    then have "?long = []" by (auto simp: filter_empty_conv)
    then show "load_existing_annotations flt s w = Return s w"
      using a by simp
  qed
  have fails: "row_annotation flt r = Inl ValueError
                 \<longleftrightarrow> (flt (r ! 1) = None \<or> flt (r ! 2) = None \<or> flt (r ! 3) = None
                      \<or> flt (r ! 4) = None)" for r
    by (auto simp: row_annotation_def split: option.splits)
  have raise: "load_existing_annotations flt s w = Raise ValueError w
                 \<longleftrightarrow> load_rows flt rows ?d = Inl ValueError"
    using unf by (auto split: sum.splits)
  have c: "(\<exists>r \<in> set rows. 5 \<le> length r
               \<and> (flt (r ! 1) = None \<or> flt (r ! 2) = None \<or> flt (r ! 3) = None
                   \<or> flt (r ! 4) = None))
            \<longleftrightarrow> load_existing_annotations flt s w = Raise ValueError w"
    unfolding raise load_rows_error_iff fails ..
  have d: "(\<exists>e w'. load_existing_annotations flt s w = Raise e w')
            \<longleftrightarrow> load_existing_annotations flt s w = Raise ValueError w"
    using unf by (auto split: sum.splits dest: load_rows_only_value_error)
  have e: "w' = w \<and> s' = s\<lparr>existing_annotations := existing_annotations s'\<rparr>
              \<and> fst ` set (existing_annotations s')
                   = fst ` set ?d \<union> (\<lambda>r. r ! 0) ` {r \<in> set rows. 5 \<le> length r}
              \<and> (\<forall>pre r post vx vy vw vh.
                    rows = pre @ r # post \<and> 5 \<le> length r
                    \<and> flt (r ! 1) = Some vx \<and> flt (r ! 2) = Some vy
                    \<and> flt (r ! 3) = Some vw \<and> flt (r ! 4) = Some vh
                    \<and> (\<forall>q \<in> set post. 5 \<le> length q \<longrightarrow> q ! 0 \<noteq> r ! 0)
                  \<longrightarrow> map_of (existing_annotations s') (r ! 0)
                        = Some \<lparr>ann_x = vx, ann_y = vy, ann_width = vw, ann_height = vh\<rparr>)"
    if ret: "load_existing_annotations flt s w = Return s' w'" for s' w'
  proof -
    from ret unf obtain d1 where ld: "load_rows flt rows ?d = Inr d1"
      and s': "s' = s\<lparr>existing_annotations := d1\<rparr>" and w': "w' = w"
      by (auto split: sum.splits)
    have ex: "existing_annotations s' = d1"
      by (simp add: s')
    have conv: "\<forall>r \<in> set ?long. 5 \<le> length r \<and> (\<exists>a. row_annotation flt r = Inr a)"
    proof
      fix r assume r: "r \<in> set ?long"
      have "load_rows flt rows ?d \<noteq> Inl ValueError"
        using ld by simp
      then have "row_annotation flt r \<noteq> Inl ValueError"
        using r unfolding load_rows_error_iff by auto
      then have "\<exists>a. row_annotation flt r = Inr a"
        by (cases "row_annotation flt r") (auto dest: row_annotation_error)
      with r show "5 \<le> length r \<and> (\<exists>a. row_annotation flt r = Inr a)"
        by simp
    qed
    from load_rows_long [OF conv, of ?d] ld flt
    have keys: "fst ` set d1 = fst ` set ?d \<union> (\<lambda>r. r ! 0) ` set ?long"
      and lst: "\<forall>pre r post a. ?long = pre @ r # post \<and> row_annotation flt r = Inr a
                  \<and> r ! 0 \<notin> (\<lambda>q. q ! 0) ` set post
                \<longrightarrow> map_of d1 (r ! 0) = Some a"
      by auto
    have k: "fst ` set d1 = fst ` set ?d \<union> (\<lambda>r. r ! 0) ` {r \<in> set rows. 5 \<le> length r}"
      using keys by simp
    have l: "\<forall>pre r post vx vy vw vh.
                    rows = pre @ r # post \<and> 5 \<le> length r
                    \<and> flt (r ! 1) = Some vx \<and> flt (r ! 2) = Some vy
                    \<and> flt (r ! 3) = Some vw \<and> flt (r ! 4) = Some vh
                    \<and> (\<forall>q \<in> set post. 5 \<le> length q \<longrightarrow> q ! 0 \<noteq> r ! 0)
                  \<longrightarrow> map_of d1 (r ! 0)
                        = Some \<lparr>ann_x = vx, ann_y = vy, ann_width = vw, ann_height = vh\<rparr>"
    proof (intro allI impI)
      fix pre r post vx vy vw vh
      assume h: "rows = pre @ r # post \<and> 5 \<le> length r
                    \<and> flt (r ! 1) = Some vx \<and> flt (r ! 2) = Some vy
                    \<and> flt (r ! 3) = Some vw \<and> flt (r ! 4) = Some vh
                    \<and> (\<forall>q \<in> set post. 5 \<le> length q \<longrightarrow> q ! 0 \<noteq> r ! 0)"
      let ?a = "\<lparr>ann_x = vx, ann_y = vy, ann_width = vw, ann_height = vh\<rparr>"
      have s1: "?long = filter (\<lambda>r. 5 \<le> length r) pre @ r # filter (\<lambda>r. 5 \<le> length r) post"
        using h by simp
      have s2: "row_annotation flt r = Inr ?a"
        using h by (simp add: row_annotation_fields)
      have s3: "r ! 0 \<notin> (\<lambda>q. q ! 0) ` set (filter (\<lambda>r. 5 \<le> length r) post)"
        using h by auto
      from lst s1 s2 s3 show "map_of d1 (r ! 0) = Some ?a"
        by blast
    qed
    from w' s' ex k l show ?thesis by simp
  qed
  from a b c d e show ?thesis by blast
qed


text \<open>The theorem at three files: one with two short rows, a row of six fields and a
  later row of five fields for the same name; one with a short row only; one with a row
  of five fields that does not convert.\<close>

theorem load_skips_short_rows_witness:
  "fs_csv (ex_file_world [csv_header, [''img1.dcm'', ''5'', ''10''], [],
                          [''img2.dcm'', ''1'', ''2'', ''3'', ''4'', ''extra''],
                          [''img2.dcm'', ''5'', ''6'', ''7'', ''8'']]) (output_file ex_fresh)
     = Some (csv_header # [[''img1.dcm'', ''5'', ''10''], [],
                           [''img2.dcm'', ''1'', ''2'', ''3'', ''4'', ''extra''],
                           [''img2.dcm'', ''5'', ''6'', ''7'', ''8'']])
   \<and> load_existing_annotations py_float ex_fresh
        (ex_file_world [csv_header, [''img1.dcm'', ''5'', ''10''], [],
                        [''img2.dcm'', ''1'', ''2'', ''3'', ''4'', ''extra''],
                        [''img2.dcm'', ''5'', ''6'', ''7'', ''8'']])
      = Return (ex_fresh\<lparr>existing_annotations :=
                  [(''img2.dcm'', \<lparr>ann_x = 5, ann_y = 6, ann_width = 7, ann_height = 8\<rparr>)]\<rparr>)
          (ex_file_world [csv_header, [''img1.dcm'', ''5'', ''10''], [],
                          [''img2.dcm'', ''1'', ''2'', ''3'', ''4'', ''extra''],
                          [''img2.dcm'', ''5'', ''6'', ''7'', ''8'']])
   \<and> load_existing_annotations py_float ex_fresh
        (ex_file_world [csv_header, [''img1.dcm'', ''5'', ''10'']])
      = Return ex_fresh (ex_file_world [csv_header, [''img1.dcm'', ''5'', ''10'']])
   \<and> load_existing_annotations py_float ex_fresh
        (ex_file_world [csv_header, [''img1.dcm'', ''abc'', ''1'', ''2'', ''3'']])
      = Raise ValueError (ex_file_world [csv_header, [''img1.dcm'', ''abc'', ''1'', ''2'', ''3'']])"
proof -
  let ?mixed = "[[''img1.dcm'', ''5'', ''10''], [],
                 [''img2.dcm'', ''1'', ''2'', ''3'', ''4'', ''extra''],
                 [''img2.dcm'', ''5'', ''6'', ''7'', ''8'']]"
  let ?short = "[[''img1.dcm'', ''5'', ''10'']]"
  let ?bad = "[[''img1.dcm'', ''abc'', ''1'', ''2'', ''3'']]"
  have f: "fs_csv (ex_file_world (csv_header # rows)) (output_file ex_fresh)
             = Some (csv_header # rows)" for rows
    by (simp add: ex_file_world_def ex_fresh_def)
  have num: "py_float ''1'' = Some 1" "py_float ''2'' = Some 2" "py_float ''3'' = Some 3"
    "py_float ''4'' = Some 4" "py_float ''5'' = Some 5" "py_float ''6'' = Some 6"
    "py_float ''7'' = Some 7" "py_float ''8'' = Some 8" "py_float ''abc'' = None"
    by (simp_all add: py_float_def unsigned_decimal_def digit_of_def)
  have e: "existing_annotations ex_fresh = []"
    by (simp add: ex_fresh_def)
  from load_skips_short_rows [OF f [of ?mixed], where flt = py_float]
  have "load_existing_annotations py_float ex_fresh (ex_file_world (csv_header # ?mixed))
           = (case load_rows py_float (filter (\<lambda>r. 5 \<le> length r) ?mixed)
                     (existing_annotations ex_fresh) of
                Inl e \<Rightarrow> Raise e (ex_file_world (csv_header # ?mixed))
              | Inr d \<Rightarrow> Return (ex_fresh\<lparr>existing_annotations := d\<rparr>)
                          (ex_file_world (csv_header # ?mixed)))"
    by blast
  then have a: "load_existing_annotations py_float ex_fresh (ex_file_world (csv_header # ?mixed))
      = Return (ex_fresh\<lparr>existing_annotations :=
                  [(''img2.dcm'', \<lparr>ann_x = 5, ann_y = 6, ann_width = 7, ann_height = 8\<rparr>)]\<rparr>)
          (ex_file_world (csv_header # ?mixed))"
    by (simp add: e row_annotation_def num)
  have "\<forall>r \<in> set ?short. length r < 5"
    by simp
  with load_skips_short_rows [OF f [of ?short], where flt = py_float]
  have b: "load_existing_annotations py_float ex_fresh (ex_file_world (csv_header # ?short))
      = Return ex_fresh (ex_file_world (csv_header # ?short))"
    by blast
  have "\<exists>r \<in> set ?bad. 5 \<le> length r
               \<and> (py_float (r ! 1) = None \<or> py_float (r ! 2) = None \<or> py_float (r ! 3) = None
                   \<or> py_float (r ! 4) = None)"
    by (simp add: num)
  with load_skips_short_rows [OF f [of ?bad], where flt = py_float]
  have c: "load_existing_annotations py_float ex_fresh (ex_file_world (csv_header # ?bad))
      = Raise ValueError (ex_file_world (csv_header # ?bad))"
    by blast
  from f [of ?mixed] a b c show ?thesis by simp
qed

end
